theory Spec2Isabelle
  imports Complex_Main
begin

section \<open>JavaScript values reaching the renderer\<close>

text \<open>
  The request body is what \<^verbatim>\<open>express.json\<close> hands over: the result of \<^verbatim>\<open>JSON.parse\<close>, or
  nothing. A property that is absent reads as \<^verbatim>\<open>undefined\<close>.

  Numbers. A JavaScript number is a binary64 value. A finite non-zero one is held here by the
  triple of \<^verbatim>\<open>Number::toString\<close>: its sign, the shortest decimal coefficient \<open>c\<close> (not a multiple
  of 10) and the exponent \<open>e\<close>, standing for \<open>c * 10^e\<close>. Zero is coefficient 0 (with its sign).
  Where the engine rounds a decimal numeral to the nearest binary64, \<open>mk_num\<close> keeps the decimal
  as it is but for the two ends of the range: at or beyond \<open>2^1024 - 2^970\<close> the result is
  infinite and at or below \<open>2^-1075\<close> it is zero, as round-to-nearest-even has it. So whether a
  result is finite, zero, positive or negative is as in the engine; its digits are the
  engine's whenever the numeral is itself the shortest form of a binary64 (every numeral of
  at most 15 significant digits inside the normal range is).

  Strings are sequences of 8-bit code units (the Latin-1 part of UTF-16).
\<close>

datatype jsnum = NaN | PosInf | NegInf | Dec bool nat int

datatype jsval =
    JUndefined
  | JNull
  | JBool bool
  | JNum jsnum
  | JStr string
  | JArr "jsval list"
  | JObj "(string \<times> jsval) list"

record js_error =
  err_name :: string
  message :: string
  code :: "string option"

definition Error :: "string \<Rightarrow> js_error" where
  "Error msg = \<lparr>err_name = ''Error'', message = msg, code = None\<rparr>"

definition TypeError :: "string \<Rightarrow> js_error" where
  "TypeError msg = \<lparr>err_name = ''TypeError'', message = msg, code = None\<rparr>"

subsection \<open>Decimal digits\<close>

definition digit_char :: "nat \<Rightarrow> char" where
  "digit_char d = char_of (48 + d)"

definition is_digit :: "char \<Rightarrow> bool" where
  "is_digit ch = (48 \<le> (of_char ch :: nat) \<and> (of_char ch :: nat) \<le> 57)"

definition digit_val :: "char \<Rightarrow> nat" where
  "digit_val ch = of_char ch - 48"

function dec_digits :: "nat \<Rightarrow> string" where
  "dec_digits n = (if n < 10 then [digit_char n] else dec_digits (n div 10) @ [digit_char (n mod 10)])"
  by pat_completeness auto
termination
  by (relation "measure id") auto

declare dec_digits.simps [simp del]

definition parse_nat :: "string \<Rightarrow> nat" where
  "parse_nat ds = foldl (\<lambda>a ch. 10 * a + digit_val ch) 0 ds"

definition dec_int :: "int \<Rightarrow> string" where
  "dec_int i = (if i < 0 then CHR ''-'' # dec_digits (nat (- i)) else dec_digits (nat i))"

subsection \<open>Numbers\<close>

function strip10 :: "nat \<Rightarrow> int \<Rightarrow> nat \<times> int" where
  "strip10 c e = (if c \<noteq> 0 \<and> c mod 10 = 0 then strip10 (c div 10) (e + 1) else (c, e))"
  by pat_completeness auto
termination
  by (relation "measure fst") auto

declare strip10.simps [simp del]

definition overflows :: "nat \<Rightarrow> int \<Rightarrow> bool" where
  "overflows c e =
     (if 0 \<le> e then 2 ^ 1024 - 2 ^ 970 \<le> c * 10 ^ nat e
      else (2 ^ 1024 - 2 ^ 970) * 10 ^ nat (- e) \<le> c)"

definition underflows :: "nat \<Rightarrow> int \<Rightarrow> bool" where
  "underflows c e = (e < 0 \<and> c * 2 ^ 1075 \<le> 10 ^ nat (- e))"

definition mk_num :: "bool \<Rightarrow> nat \<Rightarrow> int \<Rightarrow> jsnum" where
  "mk_num neg c e =
     (if c = 0 then Dec neg 0 0
      else if overflows c e then (if neg then NegInf else PosInf)
      else if underflows c e then Dec neg 0 0
      else (case strip10 c e of (c', e') \<Rightarrow> Dec neg c' e'))"

definition number_of_nat :: "nat \<Rightarrow> jsnum" where
  "number_of_nat n = mk_num False n 0"

fun isFinite :: "jsnum \<Rightarrow> bool" where
  "isFinite (Dec neg c e) = True"
| "isFinite _ = False"

fun gt_zero :: "jsnum \<Rightarrow> bool" where
  "gt_zero PosInf = True"
| "gt_zero (Dec neg c e) = (\<not> neg \<and> 0 < c)"
| "gt_zero _ = False"

fun le_zero :: "jsnum \<Rightarrow> bool" where
  "le_zero NegInf = True"
| "le_zero (Dec neg c e) = (neg \<or> c = 0)"
| "le_zero _ = False"

fun num_val :: "jsnum \<Rightarrow> rat" where
  "num_val (Dec neg c e) = (if neg then - 1 else 1) * of_nat c * 10 powi e"
| "num_val _ = 0"

text \<open>The shortest form of a binary64 has at most 17 significant digits.\<close>

fun binary64_form :: "jsnum \<Rightarrow> bool" where
  "binary64_form (Dec neg c e) =
     (if c = 0 then e = 0 else c mod 10 \<noteq> 0 \<and> length (dec_digits c) \<le> 17)"
| "binary64_form _ = True"

text \<open>\<^verbatim>\<open>Number::toString\<close> with radix 10, step by step as ECMA-262 has it.\<close>

definition exp_suffix :: "int \<Rightarrow> string" where
  "exp_suffix m =
     CHR ''e'' # (if m < 0 then CHR ''-'' # dec_digits (nat (- m)) else CHR ''+'' # dec_digits (nat m))"

fun num_to_string :: "jsnum \<Rightarrow> string" where
  "num_to_string NaN = ''NaN''"
| "num_to_string PosInf = ''Infinity''"
| "num_to_string NegInf = ''-Infinity''"
| "num_to_string (Dec neg c e) =
     (if c = 0 then ''0''
      else (if neg then ''-'' else '''') @
        (let ds = dec_digits c; k = int (length ds); n = k + e in
         if k \<le> n \<and> n \<le> 21 then ds @ replicate (nat (n - k)) CHR ''0''
         else if 0 < n \<and> n \<le> 21 then take (nat n) ds @ ''.'' @ drop (nat n) ds
         else if - 6 < n \<and> n \<le> 0 then ''0.'' @ replicate (nat (- n)) CHR ''0'' @ ds
         else if k = 1 then ds @ exp_suffix (n - 1)
         else take 1 ds @ ''.'' @ drop 1 ds @ exp_suffix (n - 1)))"

subsection \<open>ToString, ToNumber, parseInt\<close>

text \<open>
  An object converts to a primitive through its \<^verbatim>\<open>valueOf\<close> and \<^verbatim>\<open>toString\<close> methods. A value
  parsed from JSON holds no function, so an own property named \<^verbatim>\<open>toString\<close> hides
  \<^verbatim>\<open>Object.prototype.toString\<close> behind something that cannot be called, \<^verbatim>\<open>valueOf\<close> returns the
  object itself, and the conversion throws a TypeError. Without such a property a plain
  object converts to \<^verbatim>\<open>[object Object]\<close> and an array to its elements joined by commas.
\<close>

definition cannot_convert :: js_error where
  "cannot_convert = TypeError ''Cannot convert object to primitive value''"

fun to_string :: "jsval \<Rightarrow> js_error + string"
  and join_elements :: "jsval list \<Rightarrow> js_error + string" where
  "to_string JUndefined = Inr ''undefined''"
| "to_string JNull = Inr ''null''"
| "to_string (JBool b) = Inr (if b then ''true'' else ''false'')"
| "to_string (JNum n) = Inr (num_to_string n)"
| "to_string (JStr s) = Inr s"
| "to_string (JArr xs) = join_elements xs"
| "to_string (JObj kvs) =
     (if ''toString'' \<in> set (map fst kvs) then Inl cannot_convert else Inr ''[object Object]'')"
| "join_elements [] = Inr ''''"
| "join_elements (x # xs) =
     (case (if x = JUndefined \<or> x = JNull then Inr '''' else to_string x) of
        Inl err \<Rightarrow> Inl err
      | Inr s \<Rightarrow>
          (if xs = [] then Inr s
           else (case join_elements xs of Inl err \<Rightarrow> Inl err | Inr r \<Rightarrow> Inr (s @ '','' @ r))))"

definition str_ws :: "char \<Rightarrow> bool" where
  "str_ws ch = ((of_char ch :: nat) \<in> {9, 10, 11, 12, 13, 32, 160})"

definition trim :: "string \<Rightarrow> string" where
  "trim s = rev (dropWhile str_ws (rev (dropWhile str_ws s)))"

definition is_hex_digit :: "char \<Rightarrow> bool" where
  "is_hex_digit ch = (is_digit ch \<or> ch \<in> set ''abcdefABCDEF'')"

definition hex_val :: "char \<Rightarrow> nat" where
  "hex_val ch =
     (if is_digit ch then digit_val ch
      else if ch \<in> set ''abcdef'' then of_char ch - 87
      else of_char ch - 55)"

definition parse_radix :: "nat \<Rightarrow> string \<Rightarrow> nat" where
  "parse_radix r ds = foldl (\<lambda>a ch. r * a + hex_val ch) 0 ds"

text \<open>\<^verbatim>\<open>NonDecimalIntegerLiteral\<close>: \<^verbatim>\<open>0x\<close>, \<^verbatim>\<open>0o\<close>, \<^verbatim>\<open>0b\<close> and their digits, no sign.\<close>

definition non_decimal_literal :: "string \<Rightarrow> jsnum option" where
  "non_decimal_literal t =
     (case t of
        z # p # ds \<Rightarrow>
          (if z \<noteq> CHR ''0'' \<or> ds = [] then None
           else if p \<in> set ''xX'' \<and> list_all is_hex_digit ds then Some (mk_num False (parse_radix 16 ds) 0)
           else if p \<in> set ''oO'' \<and> list_all (\<lambda>ch. ch \<in> set ''01234567'') ds
             then Some (mk_num False (parse_radix 8 ds) 0)
           else if p \<in> set ''bB'' \<and> list_all (\<lambda>ch. ch \<in> set ''01'') ds
             then Some (mk_num False (parse_radix 2 ds) 0)
           else None)
      | _ \<Rightarrow> None)"

text \<open>\<^verbatim>\<open>ExponentPart\<close>: nothing, or \<^verbatim>\<open>e\<close>, an optional sign and at least one digit, up to the end.\<close>

definition exponent_part :: "string \<Rightarrow> int option" where
  "exponent_part r =
     (case r of
        [] \<Rightarrow> Some 0
      | ch # r' \<Rightarrow>
          (if ch \<notin> set ''eE'' then None
           else (case r' of
                   [] \<Rightarrow> None
                 | sg # ds \<Rightarrow>
                     (if sg = CHR ''-'' then
                        (if ds \<noteq> [] \<and> list_all is_digit ds then Some (- int (parse_nat ds)) else None)
                      else if sg = CHR ''+'' then
                        (if ds \<noteq> [] \<and> list_all is_digit ds then Some (int (parse_nat ds)) else None)
                      else (if list_all is_digit r' then Some (int (parse_nat r')) else None)))))"

text \<open>\<^verbatim>\<open>StrUnsignedDecimalLiteral\<close>: \<^verbatim>\<open>Infinity\<close>, or digits with an optional fraction and exponent.\<close>

definition unsigned_decimal_literal :: "bool \<Rightarrow> string \<Rightarrow> jsnum option" where
  "unsigned_decimal_literal neg r =
     (if r = ''Infinity'' then Some (if neg then NegInf else PosInf)
      else
        (let ip = takeWhile is_digit r;
             r1 = dropWhile is_digit r;
             dotted = (r1 \<noteq> [] \<and> hd r1 = CHR ''.'');
             fp = (if dotted then takeWhile is_digit (tl r1) else []);
             r2 = (if dotted then dropWhile is_digit (tl r1) else r1)
         in if ip = [] \<and> fp = [] then None
            else (case exponent_part r2 of
                    None \<Rightarrow> None
                  | Some x \<Rightarrow> Some (mk_num neg (parse_nat (ip @ fp)) (x - int (length fp))))))"

definition string_to_number :: "string \<Rightarrow> jsnum" where
  "string_to_number s =
     (let t = trim s in
      if t = [] then Dec False 0 0
      else (case non_decimal_literal t of
              Some n \<Rightarrow> n
            | None \<Rightarrow>
                (case (if hd t = CHR ''+'' then unsigned_decimal_literal False (tl t)
                       else if hd t = CHR ''-'' then unsigned_decimal_literal True (tl t)
                       else unsigned_decimal_literal False t) of
                   Some n \<Rightarrow> n
                 | None \<Rightarrow> NaN)))"

text \<open>\<^verbatim>\<open>Number(v)\<close>.\<close>

definition to_number :: "jsval \<Rightarrow> js_error + jsnum" where
  "to_number v =
     (case v of
        JUndefined \<Rightarrow> Inr NaN
      | JNull \<Rightarrow> Inr (Dec False 0 0)
      | JBool b \<Rightarrow> Inr (if b then Dec False 1 0 else Dec False 0 0)
      | JNum n \<Rightarrow> Inr n
      | _ \<Rightarrow> (case to_string v of Inl err \<Rightarrow> Inl err | Inr s \<Rightarrow> Inr (string_to_number s)))"

text \<open>\<^verbatim>\<open>parseInt(v, 10)\<close>: the string of \<open>v\<close>, leading white space dropped, a sign, then the
  longest run of decimal digits; \<^verbatim>\<open>NaN\<close> when there is none.\<close>

definition parseInt10 :: "jsval \<Rightarrow> js_error + jsnum" where
  "parseInt10 v =
     (case to_string v of
        Inl err \<Rightarrow> Inl err
      | Inr inputString \<Rightarrow>
          Inr (let S = dropWhile str_ws inputString;
                   neg = (S \<noteq> [] \<and> hd S = CHR ''-'');
                   S' = (if S \<noteq> [] \<and> (hd S = CHR ''+'' \<or> hd S = CHR ''-'') then tl S else S);
                   Z = takeWhile is_digit S'
               in if Z = [] then NaN else mk_num neg (parse_nat Z) 0))"

section \<open>Numeric normalizers\<close>

text \<open>
  \<^verbatim>\<open>normalizeDpr(v, fallback = 1)\<close>, \<^verbatim>\<open>normalizeInt(v, fallback)\<close>, \<^verbatim>\<open>normalizeFloat(v, fallback)\<close>.
  Every call in the program passes the fallback, so it is an argument here. A conversion
  that throws leaves the normalizer by that exception (\<open>Inl\<close>).
\<close>

definition normalizeDpr :: "jsval \<Rightarrow> jsnum \<Rightarrow> js_error + jsnum" where
  "normalizeDpr v fallback =
     (case to_number v of
        Inl err \<Rightarrow> Inl err
      | Inr n \<Rightarrow> if \<not> isFinite n \<or> le_zero n then Inr fallback else Inr n)"

definition normalizeInt :: "jsval \<Rightarrow> jsnum \<Rightarrow> js_error + jsnum" where
  "normalizeInt v fallback =
     (case parseInt10 v of
        Inl err \<Rightarrow> Inl err
      | Inr n \<Rightarrow> Inr (if isFinite n \<and> gt_zero n then n else fallback))"

definition normalizeFloat :: "jsval \<Rightarrow> jsnum \<Rightarrow> js_error + jsnum" where
  "normalizeFloat v fallback =
     (case to_number v of
        Inl err \<Rightarrow> Inl err
      | Inr n \<Rightarrow> Inr (if isFinite n \<and> gt_zero n then n else fallback))"

text \<open>A value converts without an exception when no object met on the way has an own
  \<^verbatim>\<open>toString\<close> property.\<close>

fun convertible :: "jsval \<Rightarrow> bool"
  and elements_convertible :: "jsval list \<Rightarrow> bool" where
  "convertible (JArr xs) = elements_convertible xs"
| "convertible (JObj kvs) = (''toString'' \<notin> set (map fst kvs))"
| "convertible _ = True"
| "elements_convertible [] = True"
| "elements_convertible (x # xs) = (convertible x \<and> elements_convertible xs)"

section \<open>Process runner\<close>

text \<open>
  \<^verbatim>\<open>run(cmd, args, { timeoutMs })\<close> spawns the process and returns a promise. What the process
  does before the deadline is a list of events, in the order their handlers run; when the
  list is exhausted the deadline has come and the timer's callback runs if the timer is still
  armed. A promise settles once: a later \<^verbatim>\<open>resolve\<close> or \<^verbatim>\<open>reject\<close> changes nothing. A chunk is
  held as the string \<^verbatim>\<open>d.toString()\<close> gives.
\<close>

datatype proc_event =
    StdoutData string
  | StderrData string
  | ErrorEvent js_error
  | CloseEvent "int option"

record run_state =
  stdout :: string
  stderr :: string
  timer_armed :: bool
  signals :: "string list"
  settled :: "(js_error + string \<times> string) option"

definition settle :: "js_error + string \<times> string \<Rightarrow> run_state \<Rightarrow> run_state" where
  "settle r st = (if settled st = None then st\<lparr>settled := Some r\<rparr> else st)"

definition code_string :: "int option \<Rightarrow> string" where
  "code_string c = (case c of None \<Rightarrow> ''null'' | Some i \<Rightarrow> dec_int i)"

fun run_step :: "string \<Rightarrow> run_state \<Rightarrow> proc_event \<Rightarrow> run_state" where
  "run_step cmd st (StdoutData d) = st\<lparr>stdout := stdout st @ d\<rparr>"
| "run_step cmd st (StderrData d) = st\<lparr>stderr := stderr st @ d\<rparr>"
| "run_step cmd st (ErrorEvent err) = settle (Inl err) (st\<lparr>timer_armed := False\<rparr>)"
| "run_step cmd st (CloseEvent c) =
     (if c = Some 0 then settle (Inr (stdout st, stderr st)) (st\<lparr>timer_armed := False\<rparr>)
      else settle
        (Inl (Error (cmd @ '' failed (code '' @ code_string c @ ''). '' @
                     (if stderr st \<noteq> [] then stderr st else stdout st))))
        (st\<lparr>timer_armed := False\<rparr>))"

definition timer_callback :: "string \<Rightarrow> nat \<Rightarrow> run_state \<Rightarrow> run_state" where
  "timer_callback cmd timeoutMs st =
     (if timer_armed st
      then settle (Inl (Error (cmd @ '' timed out after '' @ dec_digits timeoutMs @ ''ms'')))
             (st\<lparr>signals := signals st @ [''SIGKILL''], timer_armed := False\<rparr>)
      else st)"

definition run :: "string \<Rightarrow> string list \<Rightarrow> nat \<Rightarrow> proc_event list \<Rightarrow> run_state" where
  "run cmd args timeoutMs evs =
     timer_callback cmd timeoutMs
       (foldl (run_step cmd)
          \<lparr>stdout = [], stderr = [], timer_armed = True, signals = [], settled = None\<rparr> evs)"

fun is_data :: "proc_event \<Rightarrow> bool" where
  "is_data (StdoutData d) = True"
| "is_data (StderrData d) = True"
| "is_data _ = False"

fun stdout_of :: "proc_event list \<Rightarrow> string" where
  "stdout_of [] = []"
| "stdout_of (StdoutData d # evs) = d @ stdout_of evs"
| "stdout_of (ev # evs) = stdout_of evs"

fun stderr_of :: "proc_event list \<Rightarrow> string" where
  "stderr_of [] = []"
| "stderr_of (StderrData d # evs) = d @ stderr_of evs"
| "stderr_of (ev # evs) = stderr_of evs"

section \<open>Paths\<close>

text \<open>\<^verbatim>\<open>path.join\<close> and \<^verbatim>\<open>path.normalize\<close> of Node (POSIX).\<close>

fun split_on :: "char \<Rightarrow> string \<Rightarrow> string list" where
  "split_on sep [] = [[]]"
| "split_on sep (ch # cs) =
     (if ch = sep then [] # split_on sep cs
      else (case split_on sep cs of [] \<Rightarrow> [[ch]] | seg # segs \<Rightarrow> (ch # seg) # segs))"

fun norm_segs :: "bool \<Rightarrow> string list \<Rightarrow> string list \<Rightarrow> string list" where
  "norm_segs allowAboveRoot [] acc = rev acc"
| "norm_segs allowAboveRoot (seg # segs) acc =
     (if seg = [] \<or> seg = ''.'' then norm_segs allowAboveRoot segs acc
      else if seg = ''..'' then
        (if acc \<noteq> [] \<and> hd acc \<noteq> ''..'' then norm_segs allowAboveRoot segs (tl acc)
         else if allowAboveRoot then norm_segs allowAboveRoot segs (''..'' # acc)
         else norm_segs allowAboveRoot segs acc)
      else norm_segs allowAboveRoot segs (seg # acc))"

fun join_with :: "string \<Rightarrow> string list \<Rightarrow> string" where
  "join_with sep [] = []"
| "join_with sep [x] = x"
| "join_with sep (x # y # ys) = x @ sep @ join_with sep (y # ys)"

definition path_normalize :: "string \<Rightarrow> string" where
  "path_normalize p =
     (if p = [] then ''.''
      else
        (let isAbsolute = (hd p = CHR ''/'');
             trailingSeparator = (last p = CHR ''/'');
             res = join_with ''/'' (norm_segs (\<not> isAbsolute) (split_on CHR ''/'' p) [])
         in if res = [] then (if isAbsolute then ''/'' else if trailingSeparator then ''./'' else ''.'')
            else (if isAbsolute then ''/'' else []) @ res @ (if trailingSeparator then ''/'' else [])))"

definition path_join :: "string list \<Rightarrow> string" where
  "path_join args =
     (let parts = filter (\<lambda>a. a \<noteq> []) args
      in if parts = [] then ''.'' else path_normalize (join_with ''/'' parts))"

text \<open>\<^verbatim>\<open>path.join\<close> validates its arguments: one that is not a string throws.\<close>

definition received :: "jsval \<Rightarrow> string" where
  "received v =
     (case v of
        JUndefined \<Rightarrow> ''undefined''
      | JNull \<Rightarrow> ''null''
      | JBool b \<Rightarrow> ''type boolean ('' @ (if b then ''true'' else ''false'') @ '')''
      | JNum n \<Rightarrow> ''type number ('' @ num_to_string n @ '')''
      | JStr t \<Rightarrow> ''type string''
      | JArr xs \<Rightarrow> ''an instance of Array''
      | JObj kvs \<Rightarrow> ''an instance of Object'')"

definition invalid_path_arg :: "jsval \<Rightarrow> js_error" where
  "invalid_path_arg v =
     \<lparr>err_name = ''TypeError'',
      message = ''The '' @ [char_of (34::nat)] @ ''path'' @ [char_of (34::nat)] @
                '' argument must be of type string. Received '' @ received v,
      code = Some ''ERR_INVALID_ARG_TYPE''\<rparr>"

section \<open>Reading the request\<close>

text \<open>
  \<open>get_prop\<close> is \<^verbatim>\<open>o?.k\<close> and \<^verbatim>\<open>o.k\<close> for the keys this program reads (\<^verbatim>\<open>template\<close>, \<^verbatim>\<open>width\<close>,
  \<^verbatim>\<open>height\<close>, \<^verbatim>\<open>transparent\<close>, \<^verbatim>\<open>data\<close>, \<^verbatim>\<open>assets\<close>, \<^verbatim>\<open>options\<close>, \<^verbatim>\<open>backgroundVideo\<close>, \<^verbatim>\<open>fps\<close>,
  \<^verbatim>\<open>durationSec\<close>, \<^verbatim>\<open>includeAudio\<close>, \<^verbatim>\<open>deviceScaleFactor\<close>): none of them is a property of a
  prototype, so anything but an object holding the key gives \<^verbatim>\<open>undefined\<close>. \<^verbatim>\<open>JSON.parse\<close> keeps
  the last of two equal keys.
\<close>

fun get_prop :: "jsval \<Rightarrow> string \<Rightarrow> jsval" where
  "get_prop (JObj kvs) k = (case map_of (rev kvs) k of None \<Rightarrow> JUndefined | Some v \<Rightarrow> v)"
| "get_prop _ k = JUndefined"

definition prop_or :: "jsval \<Rightarrow> string \<Rightarrow> jsval \<Rightarrow> jsval" where
  "prop_or body k dflt = (if get_prop body k = JUndefined then dflt else get_prop body k)"

fun truthy :: "jsval \<Rightarrow> bool" where
  "truthy JUndefined = False"
| "truthy JNull = False"
| "truthy (JBool b) = b"
| "truthy (JNum n) = (case n of NaN \<Rightarrow> False | Dec neg c e \<Rightarrow> c \<noteq> 0 | _ \<Rightarrow> True)"
| "truthy (JStr t) = (t \<noteq> [])"
| "truthy (JArr xs) = True"
| "truthy (JObj kvs) = True"

definition startsWith :: "string \<Rightarrow> string \<Rightarrow> bool" where
  "startsWith t p = (take (length p) t = p)"

fun replace_first :: "string \<Rightarrow> string \<Rightarrow> string \<Rightarrow> string" where
  "replace_first pat rep [] = (if pat = [] then rep else [])"
| "replace_first pat rep (ch # cs) =
     (if startsWith (ch # cs) pat then rep @ drop (length pat) (ch # cs)
      else ch # replace_first pat rep cs)"

text \<open>The own enumerable properties \<^verbatim>\<open>{ ...o }\<close> copies.\<close>

fun spread :: "jsval \<Rightarrow> (string \<times> jsval) list" where
  "spread (JObj kvs) = kvs"
| "spread (JArr xs) = map (\<lambda>i. (dec_digits i, xs ! i)) [0..<length xs]"
| "spread (JStr t) = map (\<lambda>i. (dec_digits i, JStr [t ! i])) [0..<length t]"
| "spread _ = []"

section \<open>The world a request runs in\<close>

text \<open>
  The file system, the browser and the spawned process are outside the program. The state
  \<open>sys\<close> holds what the program can change or leak: the files, the cached browser promise,
  the rendering contexts and pages that are open, and a journal of every call made to the
  outside, in order. The record \<open>world\<close> holds what the outside answers: for each call whether
  its promise rejects (or the call throws), and what the process does. Every promise of the
  browser settles.
\<close>

datatype fnode = Dir | File string

datatype action =
    Launch
  | NewContext jsval jsval jsnum
  | NewPage
  | AddInitScript jsval jsval jsval
  | Goto string
  | AddStyleTag string
  | EvaluateFonts
  | WaitForFunction nat
  | Screenshot jsval
  | ClosePage
  | CloseContext
  | Mkdtemp string
  | WriteFile string
  | Spawn string "string list" nat
  | Kill string
  | ReadFile string
  | RmSync string
  | ConsoleError js_error

record sys =
  files :: "string \<Rightarrow> fnode option"
  browserPromise :: "js_error option option"
  open_contexts :: nat
  open_pages :: nat
  journal :: "action list"

record world =
  env_DATA_ROOT :: "string option"
  os_tmpdir :: string
  mkdtemp_suffix :: string
  mkdtemp_error :: "js_error option"
  randomBytes_hex :: string
  launch_error :: "js_error option"
  newContext_error :: "js_error option"
  newPage_error :: "js_error option"
  addInitScript_error :: "js_error option"
  goto_error :: "js_error option"
  addStyleTag_error :: "js_error option"
  evaluate_error :: "js_error option"
  waitForFunction_error :: "js_error option"
  screenshot_result :: "js_error + string"
  page_close_error :: "js_error option"
  context_close_error :: "js_error option"
  writeFile_error :: "js_error option"
  ffmpeg_events :: "proc_event list"
  ffmpeg_output :: "string option"
  rmSync_error :: "js_error option"

type_synonym 'a io = "sys \<Rightarrow> (js_error + 'a) \<times> sys"

definition await :: "'a io \<Rightarrow> ('a \<Rightarrow> 'b io) \<Rightarrow> 'b io" where
  "await m k s = (case m s of (Inl err, s') \<Rightarrow> (Inl err, s') | (Inr x, s') \<Rightarrow> k x s')"

definition resolve :: "'a \<Rightarrow> 'a io" where
  "resolve x s = (Inr x, s)"

definition throw :: "js_error \<Rightarrow> 'a io" where
  "throw err s = (Inl err, s)"

definition lift :: "js_error + 'a \<Rightarrow> 'a io" where
  "lift r s = (r, s)"

definition note_action :: "action \<Rightarrow> sys \<Rightarrow> sys" where
  "note_action a s = s\<lparr>journal := journal s @ [a]\<rparr>"

text \<open>A call to the outside: it is journalled, then its promise rejects or fulfils.\<close>

definition outside :: "action \<Rightarrow> js_error option \<Rightarrow> unit io" where
  "outside a outcome s =
     (case outcome of None \<Rightarrow> (Inr (), note_action a s) | Some err \<Rightarrow> (Inl err, note_action a s))"

definition DATA_ROOT :: "world \<Rightarrow> string" where
  "DATA_ROOT w = (case env_DATA_ROOT w of None \<Rightarrow> ''/data'' | Some d \<Rightarrow> if d = [] then ''/data'' else d)"

definition TEMPLATES_ROOT :: "world \<Rightarrow> string" where
  "TEMPLATES_ROOT w = path_join [DATA_ROOT w, ''templates'']"

text \<open>\<^verbatim>\<open>getBrowser\<close>: the first call launches; the promise, fulfilled or rejected, is kept.\<close>

definition getBrowser :: "world \<Rightarrow> unit io" where
  "getBrowser w s =
     (case browserPromise s of
        None \<Rightarrow>
          (case launch_error w of
             None \<Rightarrow> (Inr (), note_action Launch (s\<lparr>browserPromise := Some None\<rparr>))
           | Some err \<Rightarrow> (Inl err, note_action Launch (s\<lparr>browserPromise := Some (Some err)\<rparr>)))
      | Some None \<Rightarrow> (Inr (), s)
      | Some (Some err) \<Rightarrow> (Inl err, s))"

definition newContext :: "world \<Rightarrow> jsval \<Rightarrow> jsval \<Rightarrow> jsnum \<Rightarrow> unit io" where
  "newContext w width height dpr s =
     (case newContext_error w of
        None \<Rightarrow> (Inr (), note_action (NewContext width height dpr) (s\<lparr>open_contexts := open_contexts s + 1\<rparr>))
      | Some err \<Rightarrow> (Inl err, note_action (NewContext width height dpr) s))"

definition newPage :: "world \<Rightarrow> unit io" where
  "newPage w s =
     (case newPage_error w of
        None \<Rightarrow> (Inr (), note_action NewPage (s\<lparr>open_pages := open_pages s + 1\<rparr>))
      | Some err \<Rightarrow> (Inl err, note_action NewPage s))"

definition screenshot :: "world \<Rightarrow> jsval \<Rightarrow> string io" where
  "screenshot w transparent s = (screenshot_result w, note_action (Screenshot transparent) s)"

text \<open>\<^verbatim>\<open>page.close().catch(() => {})\<close> and \<^verbatim>\<open>context.close().catch(() => {})\<close>: a rejection is
  swallowed. Closing a context closes the page in it.\<close>

definition close_page :: "world \<Rightarrow> bool io" where
  "close_page w s =
     (case page_close_error w of
        None \<Rightarrow> (Inr True, note_action ClosePage (s\<lparr>open_pages := open_pages s - 1\<rparr>))
      | Some err \<Rightarrow> (Inr False, note_action ClosePage s))"

definition close_context :: "world \<Rightarrow> bool \<Rightarrow> unit io" where
  "close_context w page_closed s =
     (case context_close_error w of
        None \<Rightarrow>
          (Inr (), note_action CloseContext
             (s\<lparr>open_contexts := open_contexts s - 1,
                open_pages := (if page_closed then open_pages s else open_pages s - 1)\<rparr>))
      | Some err \<Rightarrow> (Inr (), note_action CloseContext s))"

section \<open>Page renderer\<close>

definition template_not_found :: "string \<Rightarrow> js_error" where
  "template_not_found htmlPath =
     \<lparr>err_name = ''Error'', message = ''Template not found at '' @ htmlPath,
      code = Some ''TEMPLATE_NOT_FOUND''\<rparr>"

definition hide_bg_css :: string where
  "hide_bg_css = ''.bg { display:none !important; }''"

text \<open>\<^verbatim>\<open>renderPngBuffer\<close> from the call of \<^verbatim>\<open>normalizeDpr\<close> on: the template exists.\<close>

definition render_page ::
  "world \<Rightarrow> string \<Rightarrow> jsval \<Rightarrow> jsval \<Rightarrow> jsval \<Rightarrow> jsval \<Rightarrow> jsval \<Rightarrow> jsval \<Rightarrow> bool \<Rightarrow> string io" where
  "render_page w htmlPath width height transparent data assets options hideBg =
     await (lift (normalizeDpr (get_prop options ''deviceScaleFactor'') (number_of_nat 1))) (\<lambda>dpr.
     await (getBrowser w) (\<lambda>_.
     await (newContext w width height dpr) (\<lambda>_.
     await (newPage w) (\<lambda>_.
     await (outside (AddInitScript data assets options) (addInitScript_error w)) (\<lambda>_.
     await (outside (Goto (''file://'' @ htmlPath)) (goto_error w)) (\<lambda>_.
     await (if hideBg then outside (AddStyleTag hide_bg_css) (addStyleTag_error w) else resolve ()) (\<lambda>_.
     await (outside EvaluateFonts (evaluate_error w)) (\<lambda>_.
     await (outside (WaitForFunction 20000) (waitForFunction_error w)) (\<lambda>_.
     await (screenshot w transparent) (\<lambda>png.
     await (close_page w) (\<lambda>page_closed.
     await (close_context w page_closed) (\<lambda>_.
     resolve png))))))))))))"

definition templateDir_of :: "world \<Rightarrow> string \<Rightarrow> string" where
  "templateDir_of w t = path_join [TEMPLATES_ROOT w, t]"

definition htmlPath_of :: "world \<Rightarrow> string \<Rightarrow> string" where
  "htmlPath_of w t = path_join [templateDir_of w t, ''index.html'']"

definition renderPngBuffer ::
  "world \<Rightarrow> jsval \<Rightarrow> jsval \<Rightarrow> jsval \<Rightarrow> jsval \<Rightarrow> jsval \<Rightarrow> jsval \<Rightarrow> jsval \<Rightarrow> bool \<Rightarrow> string io" where
  "renderPngBuffer w template width height transparent data assets options hideBg =
     (case template of
        JStr t \<Rightarrow>
          (\<lambda>s. if files s (htmlPath_of w t) = None then (Inl (template_not_found (htmlPath_of w t)), s)
               else render_page w (htmlPath_of w t) width height transparent data assets options hideBg s)
      | _ \<Rightarrow> throw (invalid_path_arg template))"

section \<open>Request handlers\<close>

datatype resp_body = JsonBody "(string \<times> string) list" | Binary string

record response =
  status :: nat
  content_type :: string
  payload :: resp_body

definition json_response :: "nat \<Rightarrow> (string \<times> string) list \<Rightarrow> response" where
  "json_response st kvs = \<lparr>status = st, content_type = ''application/json; charset=utf-8'', payload = JsonBody kvs\<rparr>"

text \<open>The machine-readable code of an error response: the \<^verbatim>\<open>error\<close> field of its JSON body.\<close>

definition error_code :: "response \<Rightarrow> string option" where
  "error_code resp = (case payload resp of JsonBody kvs \<Rightarrow> map_of kvs ''error'' | Binary b \<Rightarrow> None)"

text \<open>
  \<^verbatim>\<open>const body = req.body || {}\<close> and the destructuring with defaults
  \<^verbatim>\<open>{ template, width = 2160, height = 3840, transparent = false, data = {}, assets = {}, options = {} }\<close>.
\<close>

definition req_body :: "jsval \<Rightarrow> jsval" where
  "req_body reqBody = (if truthy reqBody then reqBody else JObj [])"

definition req_template :: "jsval \<Rightarrow> jsval" where
  "req_template reqBody = get_prop (req_body reqBody) ''template''"

definition req_width :: "jsval \<Rightarrow> jsval" where
  "req_width reqBody = prop_or (req_body reqBody) ''width'' (JNum (number_of_nat 2160))"

definition req_height :: "jsval \<Rightarrow> jsval" where
  "req_height reqBody = prop_or (req_body reqBody) ''height'' (JNum (number_of_nat 3840))"

definition req_transparent :: "jsval \<Rightarrow> jsval" where
  "req_transparent reqBody = prop_or (req_body reqBody) ''transparent'' (JBool False)"

definition req_data :: "jsval \<Rightarrow> jsval" where
  "req_data reqBody = prop_or (req_body reqBody) ''data'' (JObj [])"

definition req_assets :: "jsval \<Rightarrow> jsval" where
  "req_assets reqBody = prop_or (req_body reqBody) ''assets'' (JObj [])"

definition req_options :: "jsval \<Rightarrow> jsval" where
  "req_options reqBody = prop_or (req_body reqBody) ''options'' (JObj [])"

text \<open>\<^verbatim>\<open>app.post("/render/png")\<close>.\<close>

definition render_png :: "world \<Rightarrow> jsval \<Rightarrow> sys \<Rightarrow> response \<times> sys" where
  "render_png w reqBody s =
     (case (if \<not> truthy (req_template reqBody)
            then (Inr (json_response 400 [(''error'', ''template is required'')]), s)
            else await (renderPngBuffer w (req_template reqBody) (req_width reqBody) (req_height reqBody)
                          (req_transparent reqBody) (req_data reqBody) (req_assets reqBody)
                          (req_options reqBody) False)
                   (\<lambda>png. resolve \<lparr>status = 200, content_type = ''image/png'', payload = Binary png\<rparr>) s) of
        (Inr resp, s') \<Rightarrow> (resp, s')
      | (Inl err, s') \<Rightarrow>
          (json_response (if code err = Some ''TEMPLATE_NOT_FOUND'' then 404 else 500)
             [(''error'', ''RENDER_FAILED''), (''message'', message err)],
           note_action (ConsoleError err) s'))"

text \<open>\<^verbatim>\<open>app.post("/render/video")\<close>: the filter graph and the arguments of the compositing tool.\<close>

definition filter_complex :: "jsval \<Rightarrow> jsval \<Rightarrow> js_error + string" where
  "filter_complex width height =
     (case to_string width of
        Inl err \<Rightarrow> Inl err
      | Inr W \<Rightarrow>
          (case to_string height of
             Inl err \<Rightarrow> Inl err
           | Inr H \<Rightarrow>
               Inr (join_with '';''
                 [''[0:v]scale='' @ W @ '':'' @ H @ '':force_original_aspect_ratio=increase,'' @
                    ''crop='' @ W @ '':'' @ H @ '',setsar=1[bg]'',
                  ''[bg][1:v]overlay=0:0:format=auto[v]''])))"

definition ffmpegArgs ::
  "string \<Rightarrow> string \<Rightarrow> jsnum \<Rightarrow> jsnum \<Rightarrow> string \<Rightarrow> bool \<Rightarrow> string \<Rightarrow> string list" where
  "ffmpegArgs bgPath overlayPath durationSec fps flt includeAudio outPath =
     [''-y'',
      ''-stream_loop'', ''-1'',
      ''-i'', bgPath,
      ''-i'', overlayPath,
      ''-t'', num_to_string durationSec,
      ''-r'', num_to_string fps,
      ''-filter_complex'', flt,
      ''-map'', ''[v]''] @
     (if includeAudio then [''-map'', ''0:a?''] else [''-an'']) @
     [''-c:v'', ''libx264'',
      ''-pix_fmt'', ''yuv420p'',
      ''-movflags'', ''+faststart'',
      outPath]"

text \<open>\<^verbatim>\<open>bgVideo.replace("file://", "")\<close>: only a string has the method.\<close>

definition replace_file_scheme :: "jsval \<Rightarrow> js_error + string" where
  "replace_file_scheme bgVideo =
     (case bgVideo of
        JStr t \<Rightarrow> Inr (replace_first ''file://'' [] t)
      | _ \<Rightarrow> Inl (TypeError ''bgVideo.replace is not a function''))"

definition writeFileSync :: "world \<Rightarrow> string \<Rightarrow> string \<Rightarrow> unit io" where
  "writeFileSync w path content s =
     (case writeFile_error w of
        None \<Rightarrow> (Inr (), note_action (WriteFile path) (s\<lparr>files := (files s)(path \<mapsto> File content)\<rparr>))
      | Some err \<Rightarrow> (Inl err, note_action (WriteFile path) s))"

definition no_such_file :: "string \<Rightarrow> js_error" where
  "no_such_file path =
     \<lparr>err_name = ''Error'', message = ''ENOENT: no such file or directory, open '' @ [CHR 0x27] @ path @ [CHR 0x27],
      code = Some ''ENOENT''\<rparr>"

definition is_a_directory :: js_error where
  "is_a_directory =
     \<lparr>err_name = ''Error'', message = ''EISDIR: illegal operation on a directory, read'',
      code = Some ''EISDIR''\<rparr>"

definition readFileSync :: "string \<Rightarrow> string io" where
  "readFileSync path s =
     (case files s path of
        Some (File content) \<Rightarrow> (Inr content, note_action (ReadFile path) s)
      | Some Dir \<Rightarrow> (Inl is_a_directory, note_action (ReadFile path) s)
      | None \<Rightarrow> (Inl (no_such_file path), note_action (ReadFile path) s))"

text \<open>\<^verbatim>\<open>fs.rmSync(tmpDir, { recursive: true, force: true })\<close> inside \<^verbatim>\<open>try { } catch {}\<close>: when it
  throws, nothing is removed and nothing is thrown on.\<close>

definition rmSync_swallowed :: "world \<Rightarrow> string \<Rightarrow> sys \<Rightarrow> sys" where
  "rmSync_swallowed w dir s =
     (case rmSync_error w of
        None \<Rightarrow>
          note_action (RmSync dir)
            (s\<lparr>files := (\<lambda>p. if p = dir \<or> startsWith p (dir @ ''/'') then None else files s p)\<rparr>)
      | Some err \<Rightarrow> note_action (RmSync dir) s)"

text \<open>The \<^verbatim>\<open>try\<close> block up to the arguments of the tool: an early \<^verbatim>\<open>return res.status(400)\<close> is
  \<open>Inl\<close> of the response, the arguments are \<open>Inr\<close>.\<close>

definition req_bgVideo :: "jsval \<Rightarrow> jsval" where
  "req_bgVideo reqBody = get_prop (req_assets reqBody) ''backgroundVideo''"

definition video_prepare :: "world \<Rightarrow> jsval \<Rightarrow> string \<Rightarrow> string \<Rightarrow> (response + string list) io" where
  "video_prepare w reqBody overlayPath outPath =
     (if \<not> truthy (req_template reqBody) then
        resolve (Inl (json_response 400 [(''error'', ''template is required'')]))
      else if \<not> truthy (req_bgVideo reqBody) then
        resolve (Inl (json_response 400 [(''error'', ''assets.backgroundVideo is required for /render/video'')]))
      else
        await (lift (to_string (req_bgVideo reqBody))) (\<lambda>bgString.
        if \<not> startsWith bgString ''file://'' then
          resolve (Inl (json_response 400
            [(''error'', ''assets.backgroundVideo must be a file:// URL for /render/video'')]))
        else
          await (lift (normalizeInt (get_prop (req_options reqBody) ''fps'') (number_of_nat 30))) (\<lambda>fps.
          await (lift (normalizeFloat (get_prop (req_options reqBody) ''durationSec'') (number_of_nat 6))) (\<lambda>durationSec.
          await (lift (normalizeDpr (get_prop (req_options reqBody) ''deviceScaleFactor'') (number_of_nat 1))) (\<lambda>dpr.
          await (renderPngBuffer w (req_template reqBody) (req_width reqBody) (req_height reqBody) (JBool True)
                   (req_data reqBody) (req_assets reqBody)
                   (JObj (spread (req_options reqBody) @ [(''deviceScaleFactor'', JNum dpr)])) True) (\<lambda>overlayPng.
          await (writeFileSync w overlayPath overlayPng) (\<lambda>_.
          await (lift (replace_file_scheme (req_bgVideo reqBody))) (\<lambda>bgPath.
          await (lift (filter_complex (req_width reqBody) (req_height reqBody))) (\<lambda>flt.
          resolve (Inr (ffmpegArgs bgPath overlayPath durationSec fps flt
                          (get_prop (req_options reqBody) ''includeAudio'' = JBool True) outPath)))))))))))"

text \<open>\<^verbatim>\<open>await run("ffmpeg", ffmpegArgs, { timeoutMs: 180000 })\<close> with what it leaves behind: the
  spawn and the signals sent are journalled, and the file the tool wrote is there.\<close>

definition run_ffmpeg :: "world \<Rightarrow> string list \<Rightarrow> string \<Rightarrow> sys \<Rightarrow> run_state \<times> sys" where
  "run_ffmpeg w args outPath s =
     (let st = run ''ffmpeg'' args 180000 (ffmpeg_events w);
          s1 = s\<lparr>journal := journal s @ [Spawn ''ffmpeg'' args 180000] @ map Kill (signals st)\<rparr>
      in (st, (case ffmpeg_output w of None \<Rightarrow> s1 | Some mp4 \<Rightarrow> s1\<lparr>files := (files s1)(outPath \<mapsto> File mp4)\<rparr>)))"

definition video_respond :: "string \<Rightarrow> response io" where
  "video_respond outPath =
     await (readFileSync outPath)
       (\<lambda>mp4. resolve \<lparr>status = 200, content_type = ''video/mp4'', payload = Binary mp4\<rparr>)"

text \<open>The whole \<^verbatim>\<open>try\<close> block. \<open>None\<close>: the promise of \<^verbatim>\<open>run\<close> never settles and the handler never
  gets on.\<close>

definition video_try :: "world \<Rightarrow> jsval \<Rightarrow> string \<Rightarrow> string \<Rightarrow> sys \<Rightarrow> ((js_error + response) \<times> sys) option" where
  "video_try w reqBody overlayPath outPath s =
     (case video_prepare w reqBody overlayPath outPath s of
        (Inl err, s1) \<Rightarrow> Some (Inl err, s1)
      | (Inr (Inl early), s1) \<Rightarrow> Some (Inr early, s1)
      | (Inr (Inr args), s1) \<Rightarrow>
          (case run_ffmpeg w args outPath s1 of
             (st, s2) \<Rightarrow>
               (case settled st of
                  None \<Rightarrow> None
                | Some (Inl err) \<Rightarrow> Some (Inl err, s2)
                | Some (Inr out) \<Rightarrow> Some (video_respond outPath s2))))"

text \<open>\<^verbatim>\<open>fs.mkdtempSync(path.join(os.tmpdir(), "render-"))\<close> appends six characters of its own
  to the prefix; \<^verbatim>\<open>crypto.randomBytes(6).toString("hex")\<close> names the two files.\<close>

definition tmpDir_of :: "world \<Rightarrow> string" where
  "tmpDir_of w = path_join [os_tmpdir w, ''render-''] @ mkdtemp_suffix w"

definition overlayPath_of :: "world \<Rightarrow> string" where
  "overlayPath_of w = path_join [tmpDir_of w, ''overlay-'' @ randomBytes_hex w @ ''.png'']"

definition outPath_of :: "world \<Rightarrow> string" where
  "outPath_of w = path_join [tmpDir_of w, ''out-'' @ randomBytes_hex w @ ''.mp4'']"

definition mkdtempSync :: "world \<Rightarrow> sys \<Rightarrow> sys" where
  "mkdtempSync w s = note_action (Mkdtemp (tmpDir_of w)) (s\<lparr>files := (files s)(tmpDir_of w \<mapsto> Dir)\<rparr>)"

text \<open>The handler. \<^verbatim>\<open>fs.mkdtempSync\<close> stands before the \<^verbatim>\<open>try\<close>: when it throws, the handler
  rejects with no response of its own (\<open>Inl\<close>) and nothing was created. Otherwise the \<^verbatim>\<open>try\<close>
  block runs, \<^verbatim>\<open>catch\<close> answers 500 to whatever it threw, and \<^verbatim>\<open>finally\<close> removes the directory.\<close>

definition render_video :: "world \<Rightarrow> jsval \<Rightarrow> sys \<Rightarrow> ((js_error + response) \<times> sys) option" where
  "render_video w reqBody s =
     (case mkdtemp_error w of
        Some err \<Rightarrow> Some (Inl err, s)
      | None \<Rightarrow>
          (case video_try w reqBody (overlayPath_of w) (outPath_of w) (mkdtempSync w s) of
             None \<Rightarrow> None
           | Some (Inr resp, s1) \<Rightarrow> Some (Inr resp, rmSync_swallowed w (tmpDir_of w) s1)
           | Some (Inl err, s1) \<Rightarrow>
               Some (Inr (json_response 500 [(''error'', ''RENDER_VIDEO_FAILED''), (''message'', message err)]),
                     rmSync_swallowed w (tmpDir_of w) (note_action (ConsoleError err) s1))))"

section \<open>A world to run requests in\<close>

text \<open>
  In \<open>world0\<close> every call to the outside succeeds: the tool writes a line to its standard
  error, exits with status 0 and leaves its output file. \<open>sys0\<close> is a fresh process with the
  one template \<^verbatim>\<open>card\<close> on disk.
\<close>

definition world0 :: world where
  "world0 =
     \<lparr>env_DATA_ROOT = None, os_tmpdir = ''/tmp'', mkdtemp_suffix = ''Ab3xYz'', mkdtemp_error = None,
      randomBytes_hex = ''0123456789ab'', launch_error = None, newContext_error = None,
      newPage_error = None, addInitScript_error = None, goto_error = None, addStyleTag_error = None,
      evaluate_error = None, waitForFunction_error = None, screenshot_result = Inr ''PNG'',
      page_close_error = None, context_close_error = None, writeFile_error = None,
      ffmpeg_events = [StderrData ''frame=48'', CloseEvent (Some 0)], ffmpeg_output = Some ''MP4'',
      rmSync_error = None\<rparr>"

definition sys0 :: sys where
  "sys0 =
     \<lparr>files = [''/data/templates/card/index.html'' \<mapsto> File ''<html>''], browserPromise = None,
      open_contexts = 0, open_pages = 0, journal = []\<rparr>"

definition not_ready :: js_error where
  "not_ready = Error ''page.waitForFunction: Timeout 20000ms exceeded.''"

definition navigation_failed :: js_error where
  "navigation_failed = Error ''page.goto: net::ERR_FILE_NOT_FOUND''"

definition removal_failed :: js_error where
  "removal_failed = \<lparr>err_name = ''Error'', message = ''EBUSY: resource busy or locked, rm'', code = Some ''EBUSY''\<rparr>"

section \<open>Properties of the conversions and the normalizers\<close>

lemmas js_eval = string_to_number_def trim_def non_decimal_literal_def unsigned_decimal_literal_def
  exponent_part_def is_digit_def str_ws_def parse_nat_def digit_val_def mk_num_def overflows_def
  underflows_def strip10.simps to_number_def parseInt10_def Let_def

lemma digit_char_is_digit: "d < 10 \<Longrightarrow> is_digit (digit_char d)"
  by (simp add: is_digit_def digit_char_def)

lemma digit_val_digit_char: "d < 10 \<Longrightarrow> digit_val (digit_char d) = d"
  by (simp add: digit_val_def digit_char_def)

lemma dec_digits_all_digit: "\<forall>ch \<in> set (dec_digits n). is_digit ch"
proof (induction n rule: dec_digits.induct)
  case (1 n)
  show ?case
  proof (cases "n < 10")
    case True
    then show ?thesis by (simp add: dec_digits.simps [of n] digit_char_is_digit)
  next
    case False
    with 1 show ?thesis by (simp add: dec_digits.simps [of n] digit_char_is_digit)
  qed
qed

lemma dec_digits_nonempty: "dec_digits n \<noteq> []"
  by (subst dec_digits.simps) simp

lemma parse_nat_snoc: "parse_nat (ds @ [ch]) = 10 * parse_nat ds + digit_val ch"
  by (simp add: parse_nat_def)

lemma dec_digits_upper: "n < 10 ^ length (dec_digits n)"
proof (induction n rule: dec_digits.induct)
  case (1 n)
  show ?case
  proof (cases "n < 10")
    case True
    then show ?thesis by (simp add: dec_digits.simps [of n])
  next
    case False
    with 1 have "n div 10 < 10 ^ length (dec_digits (n div 10))" by simp
    then have "n < 10 * 10 ^ length (dec_digits (n div 10))" by linarith
    with False show ?thesis by (simp add: dec_digits.simps [of n])
  qed
qed

lemma dec_digits_lower: "n \<noteq> 0 \<Longrightarrow> 10 ^ (length (dec_digits n) - 1) \<le> n"
proof (induction n rule: dec_digits.induct)
  case (1 n)
  show ?case
  proof (cases "n < 10")
    case True
    with 1 show ?thesis by (simp add: dec_digits.simps [of n])
  next
    case False
    then have nz: "n div 10 \<noteq> 0" by simp
    with 1 False have "10 ^ (length (dec_digits (n div 10)) - 1) \<le> n div 10" by simp
    then have "10 * 10 ^ (length (dec_digits (n div 10)) - 1) \<le> n" by linarith
    moreover have "length (dec_digits (n div 10)) \<noteq> 0" using dec_digits_nonempty by simp
    ultimately have "10 ^ length (dec_digits (n div 10)) \<le> n"
      by (metis power_eq_if)
    with False show ?thesis by (simp add: dec_digits.simps [of n])
  qed
qed

lemma parse_nat_take_dec_digits:
  "i \<le> length (dec_digits n) \<Longrightarrow> parse_nat (take i (dec_digits n)) = n div 10 ^ (length (dec_digits n) - i)"
proof (induction n arbitrary: i rule: dec_digits.induct)
  case (1 n)
  show ?case
  proof (cases "n < 10")
    case True
    then have ds: "dec_digits n = [digit_char n]" by (simp add: dec_digits.simps [of n])
    show ?thesis
    proof (cases i)
      case 0
      with True ds show ?thesis by (simp add: parse_nat_def)
    next
      case (Suc j)
      with True ds show ?thesis by (simp add: parse_nat_def digit_val_digit_char)
    qed
  next
    case False
    let ?xs = "dec_digits (n div 10)"
    have ds: "dec_digits n = ?xs @ [digit_char (n mod 10)]"
      using False by (simp add: dec_digits.simps [of n])
    show ?thesis
    proof (cases "i \<le> length ?xs")
      case True
      with 1 False have "parse_nat (take i ?xs) = (n div 10) div 10 ^ (length ?xs - i)" by simp
      also have "\<dots> = n div 10 ^ (Suc (length ?xs) - i)"
        using True by (simp add: Suc_diff_le div_mult2_eq)
      finally show ?thesis using True ds by simp
    next
      case gt: False
      with 1(2) ds have i: "i = Suc (length ?xs)" by simp
      from 1(1) [of "length ?xs"] False have "parse_nat ?xs = n div 10" by simp
      then show ?thesis using i ds by (simp add: parse_nat_snoc digit_val_digit_char)
    qed
  qed
qed

lemma parse_nat_dec_digits: "parse_nat (dec_digits n) = n"
  using parse_nat_take_dec_digits [of "length (dec_digits n)" n] by simp

lemma to_string_total:
  "(convertible v \<longrightarrow> (\<exists>s. to_string v = Inr s)) \<and> (\<not> convertible v \<longrightarrow> to_string v = Inl cannot_convert)"
  "(elements_convertible xs \<longrightarrow> (\<exists>s. join_elements xs = Inr s)) \<and>
   (\<not> elements_convertible xs \<longrightarrow> join_elements xs = Inl cannot_convert)"
proof (induction v and xs rule: to_string_join_elements.induct)
  case (9 x xs)
  then show ?case by (cases x) (auto split: sum.splits)
qed auto

lemma strip10_nonzero: "c \<noteq> 0 \<Longrightarrow> fst (strip10 c e) \<noteq> 0"
proof (induction c e rule: strip10.induct)
  case (1 c e)
  then show ?case by (subst strip10.simps) auto
qed

lemma strip10_exponent: "e \<le> snd (strip10 c e)"
proof (induction c e rule: strip10.induct)
  case (1 c e)
  show ?case
  proof (cases "c \<noteq> 0 \<and> c mod 10 = 0")
    case True
    with 1 have "e + 1 \<le> snd (strip10 (c div 10) (e + 1))" by simp
    with True show ?thesis by (subst strip10.simps) simp
  next
    case False
    then show ?thesis by (subst strip10.simps) auto
  qed
qed

lemma small_no_overflow: "x < 10 ^ 17 \<Longrightarrow> \<not> overflows x 0"
proof -
  assume "x < 10 ^ 17"
  moreover have "(10::nat) ^ 17 \<le> 2 ^ 1024 - 2 ^ 970" by simp
  ultimately show ?thesis by (simp add: overflows_def)
qed

lemma mk_num_small:
  assumes "0 < x" "x < 10 ^ 17"
  shows "\<exists>c' e'. mk_num False x 0 = Dec False c' e' \<and> 0 < c' \<and> 0 \<le> e'"
proof -
  obtain c' e' where s: "strip10 x 0 = (c', e')" by (cases "strip10 x 0")
  have "c' \<noteq> 0" using strip10_nonzero [of x 0] assms s by simp
  moreover have "0 \<le> e'" using strip10_exponent [of 0 x] s by simp
  ultimately show ?thesis
    using assms s small_no_overflow [of x] by (simp add: mk_num_def underflows_def)
qed

lemma digit_not_ws: "is_digit ch \<Longrightarrow> \<not> str_ws ch"
  by (auto simp: is_digit_def str_ws_def)

lemma digit_not_sign: "is_digit ch \<Longrightarrow> ch \<noteq> CHR ''+'' \<and> ch \<noteq> CHR ''-''"
  by (auto simp: is_digit_def)

lemma parseInt10_digits_prefix:
  assumes "to_string v = Inr (Z @ rest)" "Z \<noteq> []" "\<forall>ch \<in> set Z. is_digit ch"
    "rest = [] \<or> \<not> is_digit (hd rest)"
  shows "parseInt10 v = Inr (mk_num False (parse_nat Z) 0)"
proof -
  obtain z zs where Z: "Z = z # zs" using assms(2) by (cases Z) auto
  have z: "is_digit z" using assms(3) Z by simp
  have dw: "dropWhile str_ws (Z @ rest) = Z @ rest"
    using Z digit_not_ws [OF z] by simp
  have tw: "takeWhile is_digit (Z @ rest) = Z"
  proof (cases rest)
    case Nil
    then show ?thesis using assms(3) by simp
  next
    case (Cons r rs)
    then show ?thesis using assms(3,4) by (simp add: takeWhile_append2)
  qed
  have hd: "hd (Z @ rest) = z" using Z by simp
  show ?thesis
    unfolding parseInt10_def assms(1)
    using dw tw hd digit_not_sign [OF z] assms(2) by (simp add: Let_def)
qed

lemma num_val_neg_exp:
  assumes "e < 0"
  shows "num_val (Dec False c e) = of_nat c / of_nat (10 ^ nat (- e))"
proof -
  have "10 powi e = inverse ((10::rat) ^ nat (- e))"
    using assms by (simp only: power_int_def power_inverse) simp
  then show ?thesis by (simp only: num_val.simps divide_inverse of_nat_power of_nat_numeral) simp
qed

lemma num_val_nonint_exp:
  assumes "num_val (Dec neg c e) \<notin> \<int>"
  shows "e < 0"
proof (rule ccontr)
  assume "\<not> e < 0"
  then have pe: "10 powi e = (10::rat) ^ nat e"
    by (simp add: power_int_def)
  have "(of_nat c :: rat) * 10 ^ nat e \<in> \<int>" by simp
  then have "num_val (Dec neg c e) \<in> \<int>"
    unfolding num_val.simps pe by (cases neg) (simp_all add: mult.assoc)
  with assms show False by simp
qed

lemma frac_le_frac:
  assumes "0 < b" "0 < d"
  shows "((of_nat a :: rat) / of_nat b \<le> of_nat c / of_nat d) = (a * d \<le> c * b)"
proof -
  have "((of_nat a :: rat) / of_nat b \<le> of_nat c / of_nat d) = ((of_nat (a * d) :: rat) \<le> of_nat (c * b))"
    using assms by (simp add: field_simps)
  then show ?thesis by (simp only: of_nat_le_iff)
qed

lemma frac_less_frac:
  assumes "0 < b" "0 < d"
  shows "((of_nat a :: rat) / of_nat b < of_nat c / of_nat d) = (a * d < c * b)"
proof -
  have "((of_nat a :: rat) / of_nat b < of_nat c / of_nat d) = ((of_nat (a * d) :: rat) < of_nat (c * b))"
    using assms by (simp add: field_simps)
  then show ?thesis by (simp only: of_nat_less_iff)
qed

lemma val_compare:
  assumes "e < 0"
  shows "(1 \<le> num_val (Dec False c e)) = (10 ^ nat (- e) \<le> c)"
    and "(num_val (Dec False c e) < 1) = (c < 10 ^ nat (- e))"
    and "(1 / 10 ^ 6 \<le> num_val (Dec False c e)) = (10 ^ nat (- e) \<le> c * 10 ^ 6)"
    and "(num_val (Dec False c e) < 1 / 10 ^ 6) = (c * 10 ^ 6 < 10 ^ nat (- e))"
proof -
  define d where "d = (10::nat) ^ nat (- e)"
  have dpos: "0 < d" by (simp add: d_def)
  have v: "num_val (Dec False c e) = of_nat c / of_nat d"
    unfolding d_def by (rule num_val_neg_exp [OF assms])
  have one: "(1::rat) = of_nat 1 / of_nat 1" by simp
  have micro: "(1::rat) / 10 ^ 6 = of_nat 1 / of_nat (10 ^ 6)" by simp
  show "(1 \<le> num_val (Dec False c e)) = (10 ^ nat (- e) \<le> c)"
    unfolding v d_def [symmetric] by (subst one, subst frac_le_frac) (simp_all add: dpos)
  show "(num_val (Dec False c e) < 1) = (c < 10 ^ nat (- e))"
    unfolding v d_def [symmetric] by (subst one, subst frac_less_frac) (simp_all add: dpos)
  show "(1 / 10 ^ 6 \<le> num_val (Dec False c e)) = (10 ^ nat (- e) \<le> c * 10 ^ 6)"
    unfolding v d_def [symmetric] by (subst micro, subst frac_le_frac) (simp_all add: dpos)
  show "(num_val (Dec False c e) < 1 / 10 ^ 6) = (c * 10 ^ 6 < 10 ^ nat (- e))"
    unfolding v d_def [symmetric] by (subst micro, subst frac_less_frac) (simp_all add: dpos)
qed

lemma val_floor: "e < 0 \<Longrightarrow> nat \<lfloor>num_val (Dec False c e)\<rfloor> = c div 10 ^ nat (- e)"
  by (simp only: num_val_neg_exp floor_divide_of_nat_eq nat_int)

lemma val_neg_nonpos: "num_val (Dec True c e) \<le> 0"
proof -
  have "0 \<le> (of_nat c :: rat) * 10 powi e" by (simp add: power_int_def)
  then show ?thesis by simp
qed

lemma exp_suffix_head: "exp_suffix x = CHR ''e'' # tl (exp_suffix x)"
  by (simp add: exp_suffix_def)

lemma normalizeInt_result:
  assumes "parseInt10 v = Inr (mk_num False x 0)" "0 < x" "x < 10 ^ 17"
  shows "normalizeInt v fallback = Inr (number_of_nat x)"
  using mk_num_small [OF assms(2,3)] assms(1) by (auto simp: normalizeInt_def number_of_nat_def)

lemma normalizeInt_point:
  assumes "c \<noteq> 0" "e < 0" "length (dec_digits c) \<le> 17" "10 ^ nat (- e) \<le> c"
  shows "normalizeInt (JNum (Dec False c e)) fallback = Inr (number_of_nat (c div 10 ^ nat (- e)))"
proof -
  define ds where "ds = dec_digits c"
  define k where "k = length ds"
  define m where "m = nat (- e)"
  have e: "e = - int m" using assms(2) by (simp add: m_def)
  have "(10::nat) ^ m < 10 ^ k"
    using le_less_trans [OF assms(4) dec_digits_upper [of c]] by (simp add: m_def k_def ds_def)
  then have mk: "m < k" by (rule power_less_imp_less_exp [rotated]) simp
  have m0: "0 < m" using assms(2) by (simp add: m_def)
  have k17: "k \<le> 17" using assms(3) by (simp add: k_def ds_def)
  have str: "num_to_string (Dec False c e) = take (k - m) ds @ ''.'' @ drop (k - m) ds"
    using assms(1) mk m0 k17 by (simp add: Let_def ds_def [symmetric] k_def [symmetric] e nat_diff_distrib')
  have dig: "\<forall>ch \<in> set (take (k - m) ds). is_digit ch"
    using dec_digits_all_digit [of c] by (auto simp: ds_def dest: in_set_takeD)
  have ne: "take (k - m) ds \<noteq> []" using mk by (auto simp: k_def)
  have tostr: "to_string (JNum (Dec False c e)) = Inr (take (k - m) ds @ ''.'' @ drop (k - m) ds)"
    by (simp only: to_string.simps str)
  have "parseInt10 (JNum (Dec False c e)) = Inr (mk_num False (parse_nat (take (k - m) ds)) 0)"
    by (rule parseInt10_digits_prefix [OF tostr ne dig]) (simp add: is_digit_def)
  moreover have "parse_nat (take (k - m) ds) = c div 10 ^ m"
    using parse_nat_take_dec_digits [of "k - m" c] mk by (simp add: ds_def k_def)
  moreover have "0 < c div 10 ^ m" using assms(4) by (simp add: m_def div_greater_zero_iff)
  moreover have "c div 10 ^ m < 10 ^ 17"
  proof -
    have "c < 10 ^ k" using dec_digits_upper [of c] by (simp add: k_def ds_def)
    also have "(10::nat) ^ k \<le> 10 ^ 17" using k17 by (intro power_increasing) simp_all
    finally have "c < 10 ^ 17" .
    moreover have "c div 10 ^ m \<le> c" by simp
    ultimately show ?thesis by linarith
  qed
  ultimately show ?thesis using normalizeInt_result [of "JNum (Dec False c e)" "c div 10 ^ m" fallback]
    by (simp add: m_def)
qed

lemma normalizeInt_zero_point:
  assumes "c \<noteq> 0" "e < 0" "c < 10 ^ nat (- e)" "10 ^ nat (- e) \<le> c * 10 ^ 6"
  shows "normalizeInt (JNum (Dec False c e)) fallback = Inr fallback"
proof -
  define ds where "ds = dec_digits c"
  define k where "k = length ds"
  define m where "m = nat (- e)"
  have e: "e = - int m" using assms(2) by (simp add: m_def)
  have "(10::nat) ^ (k - 1) < 10 ^ m"
    using le_less_trans [OF dec_digits_lower [OF assms(1)] assms(3)] by (simp add: m_def k_def ds_def)
  then have "k - 1 < m" by (rule power_less_imp_less_exp [rotated]) simp
  then have km: "k \<le> m" by simp
  have "c * 10 ^ 6 < 10 ^ k * 10 ^ 6"
    using dec_digits_upper [of c] by (simp add: k_def ds_def)
  with assms(4) have "(10::nat) ^ m < 10 ^ (k + 6)" by (simp add: m_def power_add)
  then have mk: "m < k + 6" by (rule power_less_imp_less_exp [rotated]) simp
  have k0: "0 < k" using dec_digits_nonempty [of c] by (simp add: k_def ds_def)
  have str: "num_to_string (Dec False c e) = ''0'' @ (''.'' @ replicate (m - k) CHR ''0'' @ ds)"
    using assms(1) km mk k0 by (simp add: Let_def ds_def [symmetric] k_def [symmetric] e nat_diff_distrib')
  have tostr: "to_string (JNum (Dec False c e)) = Inr (''0'' @ (''.'' @ replicate (m - k) CHR ''0'' @ ds))"
    by (simp only: to_string.simps str)
  have "parseInt10 (JNum (Dec False c e)) = Inr (mk_num False (parse_nat ''0'') 0)"
    by (rule parseInt10_digits_prefix [OF tostr]) (simp_all add: is_digit_def)
  then show ?thesis
    by (simp add: normalizeInt_def parse_nat_def digit_val_def mk_num_def)
qed

lemma normalizeInt_exponent:
  assumes "c \<noteq> 0" "e < 0" "length (dec_digits c) \<le> 17" "c * 10 ^ 6 < 10 ^ nat (- e)"
  shows "normalizeInt (JNum (Dec False c e)) fallback =
    Inr (number_of_nat (c div 10 ^ (length (dec_digits c) - 1)))"
proof -
  define ds where "ds = dec_digits c"
  define k where "k = length ds"
  define m where "m = nat (- e)"
  have e: "e = - int m" using assms(2) by (simp add: m_def)
  have "10 ^ (k - 1) * 10 ^ 6 \<le> c * 10 ^ 6"
    using assms(1) dec_digits_lower [of c] by (simp add: k_def ds_def)
  with assms(4) have "(10::nat) ^ (k - 1 + 6) < 10 ^ m" by (simp add: m_def power_add)
  then have "k - 1 + 6 < m" by (rule power_less_imp_less_exp [rotated]) simp
  then have km: "k + 5 < m \<or> k = 0" by auto
  have k0: "0 < k" using dec_digits_nonempty [of c] by (simp add: k_def ds_def)
  with km have km: "k + 5 < m" by simp
  have k17: "k \<le> 17" using assms(3) by (simp add: k_def ds_def)
  have str: "num_to_string (Dec False c e) =
      take 1 ds @ (if k = 1 then exp_suffix (int k + e - 1) else ''.'' @ drop 1 ds @ exp_suffix (int k + e - 1))"
    using assms(1) km k0 by (simp add: Let_def ds_def [symmetric] k_def [symmetric] e)
  have dig: "\<forall>ch \<in> set (take 1 ds). is_digit ch"
    using dec_digits_all_digit [of c] by (auto simp: ds_def dest: in_set_takeD)
  have ne: "take 1 ds \<noteq> []" using k0 by (auto simp: k_def)
  have tostr: "to_string (JNum (Dec False c e)) = Inr (take 1 ds @
      (if k = 1 then exp_suffix (int k + e - 1) else ''.'' @ drop 1 ds @ exp_suffix (int k + e - 1)))"
    by (simp only: to_string.simps str)
  have "parseInt10 (JNum (Dec False c e)) = Inr (mk_num False (parse_nat (take 1 ds)) 0)"
    by (rule parseInt10_digits_prefix [OF tostr ne dig]) (simp add: is_digit_def exp_suffix_def)
  moreover have "parse_nat (take 1 ds) = c div 10 ^ (k - 1)"
    using parse_nat_take_dec_digits [of 1 c] k0 by (simp add: ds_def k_def Suc_le_eq)
  moreover have "0 < c div 10 ^ (k - 1)"
    using assms(1) dec_digits_lower [of c] by (simp add: k_def ds_def div_greater_zero_iff)
  moreover have "c div 10 ^ (k - 1) < 10 ^ 17"
  proof -
    have "c < 10 ^ k" using dec_digits_upper [of c] by (simp add: k_def ds_def)
    also have "(10::nat) ^ k \<le> 10 ^ 17" using k17 by (intro power_increasing) simp_all
    finally have "c < 10 ^ 17" .
    moreover have "c div 10 ^ (k - 1) \<le> c" by simp
    ultimately show ?thesis by linarith
  qed
  ultimately show ?thesis
    using normalizeInt_result [of "JNum (Dec False c e)" "c div 10 ^ (k - 1)" fallback]
    by (simp add: k_def ds_def)
qed

lemma finite_le_zero: "isFinite n \<Longrightarrow> le_zero n = (\<not> gt_zero n)"
  by (cases n) auto

text \<open>
  Claim C3, as the code has it. For every input \<open>v\<close> that converts to a primitive, and a finite
  positive fallback, \<^verbatim>\<open>normalizeDpr\<close> and \<^verbatim>\<open>normalizeFloat\<close> return \<^verbatim>\<open>Number(v)\<close> and
  \<^verbatim>\<open>normalizeInt\<close> returns \<^verbatim>\<open>parseInt(v, 10)\<close> when that number is finite and greater than 0,
  and the fallback otherwise; no exception is raised and every result is finite and
  greater than 0.
\<close>

theorem normalizers_positive_or_fallback:
  assumes "convertible v" and "isFinite fallback" and "gt_zero fallback"
  shows "\<exists>n m rd ri rf. to_number v = Inr n \<and> parseInt10 v = Inr m
      \<and> normalizeDpr v fallback = Inr rd \<and> rd = (if isFinite n \<and> gt_zero n then n else fallback)
      \<and> normalizeInt v fallback = Inr ri \<and> ri = (if isFinite m \<and> gt_zero m then m else fallback)
      \<and> normalizeFloat v fallback = Inr rf \<and> rf = (if isFinite n \<and> gt_zero n then n else fallback)
      \<and> isFinite rd \<and> gt_zero rd \<and> isFinite ri \<and> gt_zero ri \<and> isFinite rf \<and> gt_zero rf"
proof -
  from assms(1) obtain s where s: "to_string v = Inr s"
    using to_string_total(1) [of v] by auto
  then obtain n where n: "to_number v = Inr n"
    by (cases v) (simp_all add: to_number_def)
  from s obtain m where m: "parseInt10 v = Inr m"
    by (simp add: parseInt10_def)
  show ?thesis
    using n m assms(2,3)
    by (auto simp: normalizeDpr_def normalizeInt_def normalizeFloat_def finite_le_zero)
qed

text \<open>The three normalizers at the strings \<^verbatim>\<open>"2.5"\<close> and \<^verbatim>\<open>"-2.5"\<close> with fallback 1.\<close>

theorem normalizers_positive_or_fallback_witness:
  "normalizeDpr (JStr ''2.5'') (Dec False 1 0) = Inr (Dec False 25 (- 1))
   \<and> normalizeInt (JStr ''2.5'') (Dec False 1 0) = Inr (Dec False 2 0)
   \<and> normalizeFloat (JStr ''-2.5'') (Dec False 1 0) = Inr (Dec False 1 0)"
proof -
  have f: "isFinite (Dec False 1 0)" "gt_zero (Dec False 1 0)" by simp_all
  have e1: "to_number (JStr ''2.5'') = Inr (Dec False 25 (- 1))" by (simp add: js_eval)
  have e2: "parseInt10 (JStr ''2.5'') = Inr (Dec False 2 0)" by (simp add: js_eval)
  have e3: "to_number (JStr ''-2.5'') = Inr (Dec True 25 (- 1))" by (simp add: js_eval)
  have c1: "convertible (JStr ''2.5'')" and c2: "convertible (JStr ''-2.5'')" by simp_all
  from normalizers_positive_or_fallback [OF c1 f] normalizers_positive_or_fallback [OF c2 f]
  show ?thesis by (auto simp: e1 e2 e3)
qed

text \<open>
  Claim C3 as stated fails: at the object \<^verbatim>\<open>{"toString": null}\<close>, which \<^verbatim>\<open>JSON.parse\<close> can
  produce, each normalizer raises the TypeError of the conversion.
\<close>

theorem normalizers_throw_counterexample:
  "normalizeDpr (JObj [(''toString'', JNull)]) (Dec False 1 0) = Inl cannot_convert
   \<and> normalizeInt (JObj [(''toString'', JNull)]) (Dec False 3 1) = Inl cannot_convert
   \<and> normalizeFloat (JObj [(''toString'', JNull)]) (Dec False 6 0) = Inl cannot_convert"
  by (simp add: normalizeDpr_def normalizeInt_def normalizeFloat_def to_number_def parseInt10_def)

text \<open>So it is for every value that does not convert.\<close>

lemma normalizers_throw:
  assumes "\<not> convertible v"
  shows "normalizeDpr v fallback = Inl cannot_convert \<and> normalizeInt v fallback = Inl cannot_convert
    \<and> normalizeFloat v fallback = Inl cannot_convert"
proof -
  from assms have s: "to_string v = Inl cannot_convert" using to_string_total(1) [of v] by simp
  with assms have "to_number v = Inl cannot_convert" by (cases v) (simp_all add: to_number_def)
  with s show ?thesis by (simp add: normalizeDpr_def normalizeInt_def normalizeFloat_def parseInt10_def)
qed

text \<open>
  Claim C10, as the code has it. Let \<open>v\<close> be a number with a fractional part, in the shortest
  form of a binary64. If \<open>v \<ge> 1\<close>, \<^verbatim>\<open>normalizeInt(v, fallback)\<close> returns the integer truncation
  of \<open>v\<close>, which is not \<open>v\<close>. If \<open>1e-6 \<le> v < 1\<close> it returns the fallback. If \<open>0 < v < 1e-6\<close>
  the string of \<open>v\<close> is in exponent notation and \<^verbatim>\<open>parseInt\<close> reads its leading digit: the
  result is the first significant digit of \<open>v\<close>.
\<close>

theorem normalizeInt_fraction:
  assumes "binary64_form (Dec neg c e)" and "num_val (Dec neg c e) \<notin> \<int>"
  shows "(1 \<le> num_val (Dec neg c e) \<longrightarrow>
           normalizeInt (JNum (Dec neg c e)) fallback = Inr (number_of_nat (nat \<lfloor>num_val (Dec neg c e)\<rfloor>))
           \<and> number_of_nat (nat \<lfloor>num_val (Dec neg c e)\<rfloor>) \<noteq> Dec neg c e)
       \<and> (1 / 10 ^ 6 \<le> num_val (Dec neg c e) \<and> num_val (Dec neg c e) < 1 \<longrightarrow>
           normalizeInt (JNum (Dec neg c e)) fallback = Inr fallback)
       \<and> (0 < num_val (Dec neg c e) \<and> num_val (Dec neg c e) < 1 / 10 ^ 6 \<longrightarrow>
           normalizeInt (JNum (Dec neg c e)) fallback =
             Inr (number_of_nat (c div 10 ^ (length (dec_digits c) - 1))))"
proof -
  have e: "e < 0" using assms(2) by (rule num_val_nonint_exp)
  have c: "c \<noteq> 0"
  proof
    assume "c = 0"
    then have "num_val (Dec neg c e) = 0" by simp
    then have "num_val (Dec neg c e) \<in> \<int>" by (simp only: Ints_0)
    with assms(2) show False by blast
  qed
  have k: "length (dec_digits c) \<le> 17" using assms(1) c by simp
  show ?thesis
  proof (cases neg)
    case True
    have "num_val (Dec True c e) \<le> 0" by (rule val_neg_nonpos)
    then have "num_val (Dec neg c e) \<le> 0" using True by simp
    moreover have "(0::rat) < 1 / 10 ^ 6" by simp
    ultimately show ?thesis by auto
  next
    case False
    have a: "normalizeInt (JNum (Dec False c e)) fallback = Inr (number_of_nat (nat \<lfloor>num_val (Dec False c e)\<rfloor>))"
      if "1 \<le> num_val (Dec False c e)"
      using normalizeInt_point [OF c e k, of fallback] that val_compare(1) [OF e, of c] val_floor [OF e, of c]
      by simp
    have a': "number_of_nat x \<noteq> Dec False c e" if "0 < x" "x < 10 ^ 17" for x
      using mk_num_small [OF that] e by (auto simp: number_of_nat_def)
    have b: "normalizeInt (JNum (Dec False c e)) fallback = Inr fallback"
      if "1 / 10 ^ 6 \<le> num_val (Dec False c e)" "num_val (Dec False c e) < 1"
      using normalizeInt_zero_point [OF c e, of fallback] that val_compare(2,3) [OF e, of c] by simp
    have d: "normalizeInt (JNum (Dec False c e)) fallback = Inr (number_of_nat (c div 10 ^ (length (dec_digits c) - 1)))"
      if "num_val (Dec False c e) < 1 / 10 ^ 6"
      using normalizeInt_exponent [OF c e k, of fallback] that val_compare(4) [OF e, of c] by simp
    have bound: "nat \<lfloor>num_val (Dec False c e)\<rfloor> < 10 ^ 17"
    proof -
      have "c < 10 ^ length (dec_digits c)" by (rule dec_digits_upper)
      also have "(10::nat) ^ length (dec_digits c) \<le> 10 ^ 17" using k by (intro power_increasing) simp_all
      finally have "c < 10 ^ 17" .
      moreover have "c div 10 ^ nat (- e) \<le> c" by simp
      ultimately show ?thesis unfolding val_floor [OF e] by linarith
    qed
    have pos: "0 < nat \<lfloor>num_val (Dec False c e)\<rfloor>" if "1 \<le> num_val (Dec False c e)"
      using that val_compare(1) [OF e, of c] unfolding val_floor [OF e] by (simp add: div_greater_zero_iff)
    from False have neg: "neg = False" by simp
    show ?thesis unfolding neg using a a' [OF pos bound] b d by blast
  qed
qed

lemma fraction_not_integer:
  assumes "c mod 10 \<noteq> 0" "e < 0"
  shows "num_val (Dec neg c e) \<notin> \<int>"
proof
  assume i: "num_val (Dec neg c e) \<in> \<int>"
  define d where "d = (10::nat) ^ nat (- e)"
  have dpos: "0 < d" by (simp add: d_def)
  have "num_val (Dec neg c e) = (if neg then - 1 else 1) * num_val (Dec False c e)" by simp
  with i have "num_val (Dec False c e) \<in> \<int>" by (cases neg) simp_all
  then have "(of_nat c :: rat) / of_nat d \<in> \<int>"
    unfolding d_def num_val_neg_exp [OF assms(2)] .
  then obtain z :: int where "(of_nat c :: rat) / of_nat d = of_int z" by (auto elim: Ints_cases)
  then have "(of_nat c :: rat) = of_int z * of_nat d" using dpos by (simp add: field_simps)
  then have "(of_int (int c) :: rat) = of_int (z * int d)" by simp
  then have "int c = z * int d" by (simp only: of_int_eq_iff)
  moreover have "10 dvd int d" using assms(2) by (simp add: d_def)
  ultimately have "10 dvd int c" by simp
  then have "10 dvd c" by presburger
  with assms(1) show False by (simp add: mod_eq_0_iff_dvd)
qed

lemma number_of_nat_digit: "0 < d \<Longrightarrow> d < 10 \<Longrightarrow> number_of_nat d = Dec False d 0"
proof -
  assume d: "0 < d" "d < 10"
  then have "d mod 10 \<noteq> 0" by simp
  then have "strip10 d 0 = (d, 0)" by (subst strip10.simps) simp
  moreover have "\<not> overflows d 0" using d by (intro small_no_overflow) simp
  ultimately show ?thesis using d by (simp add: number_of_nat_def mk_num_def underflows_def)
qed

text \<open>\<^verbatim>\<open>normalizeInt\<close> at 2.7, 0.5 and 1.2e-7 with fallback 30.\<close>

theorem normalizeInt_fraction_witness:
  "normalizeInt (JNum (Dec False 27 (- 1))) (Dec False 3 1) = Inr (Dec False 2 0)
   \<and> normalizeInt (JNum (Dec False 5 (- 1))) (Dec False 3 1) = Inr (Dec False 3 1)
   \<and> normalizeInt (JNum (Dec False 12 (- 8))) (Dec False 3 1) = Inr (Dec False 1 0)"
proof -
  have d: "dec_digits 27 = ''27''" "dec_digits 5 = ''5''" "dec_digits 12 = ''12''" by code_simp+
  have w: "binary64_form (Dec False 27 (- 1))" "binary64_form (Dec False 5 (- 1))"
    "binary64_form (Dec False 12 (- 8))" by (simp_all add: d)
  have n: "num_val (Dec False 27 (- 1)) \<notin> \<int>" "num_val (Dec False 5 (- 1)) \<notin> \<int>"
    "num_val (Dec False 12 (- 8)) \<notin> \<int>" by (rule fraction_not_integer; simp)+
  have v: "num_val (Dec False 27 (- 1)) = 27 / 10" "num_val (Dec False 5 (- 1)) = 1 / 2"
    "num_val (Dec False 12 (- 8)) = 12 / 10 ^ 8"
    using num_val_neg_exp [of "- 1" 27] num_val_neg_exp [of "- 1" 5] num_val_neg_exp [of "- 8" 12]
    by simp_all
  have fl: "nat \<lfloor>num_val (Dec False 27 (- 1))\<rfloor> = 2" by (subst val_floor) simp_all
  have ld: "12 div 10 ^ (length ''12'' - 1) = (1::nat)" by simp
  have c1: "1 \<le> num_val (Dec False 27 (- 1))"
    and c2: "1 / 10 ^ 6 \<le> num_val (Dec False 5 (- 1)) \<and> num_val (Dec False 5 (- 1)) < 1"
    and c3: "0 < num_val (Dec False 12 (- 8)) \<and> num_val (Dec False 12 (- 8)) < 1 / 10 ^ 6"
    unfolding v by simp_all
  have f1: "normalizeInt (JNum (Dec False 27 (- 1))) (Dec False 3 1) = Inr (number_of_nat 2)"
    using normalizeInt_fraction [OF w(1) n(1), of "Dec False 3 1"] c1 unfolding fl by blast
  have f2: "normalizeInt (JNum (Dec False 5 (- 1))) (Dec False 3 1) = Inr (Dec False 3 1)"
    using normalizeInt_fraction [OF w(2) n(2), of "Dec False 3 1"] c2 by blast
  have f3: "normalizeInt (JNum (Dec False 12 (- 8))) (Dec False 3 1) = Inr (number_of_nat 1)"
    using normalizeInt_fraction [OF w(3) n(3), of "Dec False 3 1"] c3 unfolding d ld by blast
  show ?thesis
    unfolding f1 f2 f3 by (simp add: number_of_nat_digit)
qed

text \<open>
  Claim C10 as stated fails: 5e-7 is strictly between 0 and 1, its string is \<^verbatim>\<open>5e-7\<close>, and
  \<^verbatim>\<open>normalizeInt(5e-7, 30)\<close> is 5, not the fallback 30.
\<close>

theorem normalizeInt_tiny_counterexample:
  "binary64_form (Dec False 5 (- 7)) \<and> 0 < num_val (Dec False 5 (- 7)) \<and> num_val (Dec False 5 (- 7)) < 1
   \<and> num_val (Dec False 5 (- 7)) \<notin> \<int>
   \<and> normalizeInt (JNum (Dec False 5 (- 7))) (Dec False 3 1) = Inr (Dec False 5 0)"
proof -
  have d: "dec_digits 5 = ''5''" by code_simp
  have "num_val (Dec False 5 (- 7)) \<notin> \<int>" by (rule fraction_not_integer; simp)
  moreover have "num_val (Dec False 5 (- 7)) = 5 / 10 ^ 7"
    using num_val_neg_exp [of "- 7" 5] by simp
  moreover have "normalizeInt (JNum (Dec False 5 (- 7))) (Dec False 3 1) = Inr (Dec False 5 0)"
    using normalizeInt_exponent [of 5 "- 7" "Dec False 3 1"] by (simp add: d number_of_nat_digit)
  ultimately show ?thesis by (simp add: d)
qed

section \<open>Properties of the process runner\<close>

lemma run_data:
  "list_all is_data ds \<Longrightarrow>
   foldl (run_step cmd) st ds = st\<lparr>stdout := stdout st @ stdout_of ds, stderr := stderr st @ stderr_of ds\<rparr>"
proof (induction ds arbitrary: st)
  case Nil
  then show ?case by simp
next
  case (Cons ev ds)
  then show ?case by (cases ev) simp_all
qed

lemma run_step_settled:
  assumes "settled st = Some r" "\<not> timer_armed st"
  shows "settled (run_step cmd st ev) = Some r \<and> \<not> timer_armed (run_step cmd st ev)
     \<and> signals (run_step cmd st ev) = signals st"
  using assms by (cases ev) (simp_all add: settle_def)

lemma run_rest_settled:
  assumes "settled st = Some r" "\<not> timer_armed st"
  shows "settled (foldl (run_step cmd) st evs) = Some r \<and> \<not> timer_armed (foldl (run_step cmd) st evs)
     \<and> signals (foldl (run_step cmd) st evs) = signals st"
  using assms
proof (induction evs arbitrary: st)
  case Nil
  then show ?case by simp
next
  case (Cons ev evs)
  from run_step_settled [OF Cons.prems, of cmd ev] Cons.IH [of "run_step cmd st ev"]
  show ?case by simp
qed

lemma run_timeout_state:
  assumes "list_all is_data evs"
  shows "run cmd args timeoutMs evs =
    \<lparr>stdout = stdout_of evs, stderr = stderr_of evs, timer_armed = False, signals = [''SIGKILL''],
     settled = Some (Inl (Error (cmd @ '' timed out after '' @ dec_digits timeoutMs @ ''ms'')))\<rparr>"
  by (simp add: run_def run_data [OF assms] timer_callback_def settle_def)

lemma run_close_state:
  assumes "list_all is_data ds"
  shows "settled (run cmd args timeoutMs (ds @ CloseEvent c # rest)) =
      Some (if c = Some 0 then Inr (stdout_of ds, stderr_of ds)
            else Inl (Error (cmd @ '' failed (code '' @ code_string c @ ''). '' @
                             (if stderr_of ds \<noteq> [] then stderr_of ds else stdout_of ds))))
    \<and> \<not> timer_armed (run cmd args timeoutMs (ds @ CloseEvent c # rest))
    \<and> signals (run cmd args timeoutMs (ds @ CloseEvent c # rest)) = []"
proof -
  let ?init = "\<lparr>stdout = [], stderr = [], timer_armed = True, signals = [], settled = None\<rparr>"
  let ?st = "run_step cmd (foldl (run_step cmd) ?init ds) (CloseEvent c)"
  let ?r = "if c = Some 0 then Inr (stdout_of ds, stderr_of ds)
            else Inl (Error (cmd @ '' failed (code '' @ code_string c @ ''). '' @
                             (if stderr_of ds \<noteq> [] then stderr_of ds else stdout_of ds)))"
  have st: "settled ?st = Some ?r" "\<not> timer_armed ?st" "signals ?st = []"
    by (simp_all add: run_data [OF assms] settle_def)
  from run_rest_settled [OF st(1,2), of cmd rest] st(3)
  show ?thesis by (simp add: run_def timer_callback_def)
qed

lemma run_settles: "settled (run cmd args timeoutMs evs) \<noteq> None"
proof -
  have inv: "timer_armed (foldl (run_step cmd) st evs) \<or> settled (foldl (run_step cmd) st evs) \<noteq> None"
    if "timer_armed st \<or> settled st \<noteq> None" for st
    using that
  proof (induction evs arbitrary: st)
    case Nil
    then show ?case by simp
  next
    case (Cons ev evs)
    have "timer_armed (run_step cmd st ev) \<or> settled (run_step cmd st ev) \<noteq> None"
      using Cons.prems by (cases ev) (auto simp: settle_def)
    from Cons.IH [OF this] show ?case by simp
  qed
  from inv [of "\<lparr>stdout = [], stderr = [], timer_armed = True, signals = [], settled = None\<rparr>"]
  show ?thesis by (auto simp: run_def timer_callback_def settle_def)
qed

text \<open>
  Claim C5. When the process closes before the deadline, with no error event before: status 0
  resolves the promise with the standard output and standard error accumulated so far; any
  other status rejects it with an error whose message holds the command, the status and the
  captured standard error, or the standard output when the standard error is empty. In both
  cases the timer is cleared, and no signal is ever sent; what happens later changes nothing.
\<close>

theorem run_exit:
  assumes "list_all is_data ds"
  shows "settled (run cmd args timeoutMs (ds @ CloseEvent (Some c) # rest)) =
      Some (if c = 0 then Inr (stdout_of ds, stderr_of ds)
            else Inl (Error (cmd @ '' failed (code '' @ dec_int c @ ''). '' @
                             (if stderr_of ds \<noteq> [] then stderr_of ds else stdout_of ds))))
    \<and> \<not> timer_armed (run cmd args timeoutMs (ds @ CloseEvent (Some c) # rest))
    \<and> signals (run cmd args timeoutMs (ds @ CloseEvent (Some c) # rest)) = []"
  using run_close_state [OF assms, of cmd args timeoutMs "Some c" rest] by (simp add: code_string_def)

text \<open>Three runs of the tool: status 1 with a message on the standard error, status 0, and
  status 2 with an empty standard error.\<close>

theorem run_exit_witness:
  "settled (run ''ffmpeg'' [''-y''] 180000 [StdoutData ''a'', StderrData ''bad input'', CloseEvent (Some 1)]) =
     Some (Inl (Error ''ffmpeg failed (code 1). bad input''))
   \<and> settled (run ''ffmpeg'' [''-y''] 180000 [StdoutData ''a'', StderrData ''w'', StdoutData ''b'', CloseEvent (Some 0)]) =
     Some (Inr (''ab'', ''w''))
   \<and> settled (run ''ffmpeg'' [''-y''] 180000 [StdoutData ''usage'', CloseEvent (Some 2), StdoutData ''x'']) =
     Some (Inl (Error ''ffmpeg failed (code 2). usage''))"
proof -
  have d: "dec_int 1 = ''1''" "dec_int 2 = ''2''" by code_simp+
  from run_exit [of "[StdoutData ''a'', StderrData ''bad input'']" "''ffmpeg''" "[''-y'']" 180000 1 "[]"]
    run_exit [of "[StdoutData ''a'', StderrData ''w'', StdoutData ''b'']" "''ffmpeg''" "[''-y'']" 180000 0 "[]"]
    run_exit [of "[StdoutData ''usage'']" "''ffmpeg''" "[''-y'']" 180000 2 "[StdoutData ''x'']"]
  show ?thesis by (simp add: d)
qed

section \<open>Properties of the renderer and the handlers\<close>

lemma await_lift: "await (lift r) k s = (case r of Inl err \<Rightarrow> (Inl err, s) | Inr x \<Rightarrow> k x s)"
  by (simp add: await_def lift_def split: sum.splits)

lemma await_cases:
  "await m k s = (r, s') \<Longrightarrow>
   (\<exists>err. m s = (Inl err, s') \<and> r = Inl err) \<or> (\<exists>x s1. m s = (Inr x, s1) \<and> k x s1 = (r, s'))"
  by (auto simp: await_def split: prod.splits sum.splits)

lemma video_prepare_early:
  assumes "video_prepare w reqBody ov out s = (Inr (Inl resp), s1)"
  shows "status resp = 400 \<and> s1 = s"
  using assms unfolding video_prepare_def
  by (auto simp: resolve_def await_lift json_response_def split: if_splits sum.splits dest!: await_cases)

lemma video_prepare_args:
  assumes "video_prepare w reqBody ov out s = (Inr (Inr a), s1)"
  shows "\<exists>W H F D bgPath.
      to_string (req_width reqBody) = Inr W \<and> to_string (req_height reqBody) = Inr H
    \<and> normalizeInt (get_prop (req_options reqBody) ''fps'') (number_of_nat 30) = Inr F
    \<and> normalizeFloat (get_prop (req_options reqBody) ''durationSec'') (number_of_nat 6) = Inr D
    \<and> replace_file_scheme (req_bgVideo reqBody) = Inr bgPath
    \<and> a = ffmpegArgs bgPath ov D F
          (''[0:v]scale='' @ W @ '':'' @ H @ '':force_original_aspect_ratio=increase,crop='' @ W @ '':'' @ H @
           '',setsar=1[bg];[bg][1:v]overlay=0:0:format=auto[v]'')
          (get_prop (req_options reqBody) ''includeAudio'' = JBool True) out"
  using assms unfolding video_prepare_def
  by (auto simp: resolve_def await_lift lift_def filter_complex_def split: if_splits sum.splits dest!: await_cases)

lemma video_try_total: "\<exists>r s1. video_try w reqBody ov out s = Some (r, s1)"
proof -
  obtain r0 s0 where p: "video_prepare w reqBody ov out s = (r0, s0)" by (cases "video_prepare w reqBody ov out s")
  show ?thesis
  proof (cases r0)
    case (Inl err)
    with p show ?thesis by (simp add: video_try_def)
  next
    case (Inr x)
    show ?thesis
    proof (cases x)
      case (Inl early)
      with p Inr show ?thesis by (simp add: video_try_def)
    next
      case (Inr args)
      obtain st s2 where rf: "run_ffmpeg w args out s0 = (st, s2)" by (cases "run_ffmpeg w args out s0")
      then have "st = run ''ffmpeg'' args 180000 (ffmpeg_events w)"
        by (auto simp: run_ffmpeg_def Let_def split: option.splits)
      then obtain o1 where "settled st = Some o1" using run_settles [of "''ffmpeg''" args 180000 "ffmpeg_events w"] by auto
      with p \<open>r0 = Inr x\<close> Inr rf show ?thesis
        by (cases o1; cases "video_respond out s2") (simp_all add: video_try_def)
    qed
  qed
qed

lemma render_video_result:
  assumes "mkdtemp_error w = None"
    and "video_try w reqBody (overlayPath_of w) (outPath_of w) (mkdtempSync w s) = Some (r, s1)"
  shows "render_video w reqBody s =
     Some (Inr (case r of Inr resp \<Rightarrow> resp
                | Inl err \<Rightarrow> json_response 500 [(''error'', ''RENDER_VIDEO_FAILED''), (''message'', message err)]),
           rmSync_swallowed w (tmpDir_of w)
             (case r of Inr resp \<Rightarrow> s1 | Inl err \<Rightarrow> note_action (ConsoleError err) s1))"
  using assms by (cases r) (simp_all add: render_video_def)

lemma rmSync_journal: "journal (rmSync_swallowed w d s) = journal s @ [RmSync d]"
  by (simp add: rmSync_swallowed_def note_action_def split: option.splits)

lemma rmSync_removes:
  "rmSync_error w = None \<Longrightarrow>
   files (rmSync_swallowed w d s) p = (if p = d \<or> startsWith p (d @ ''/'') then None else files s p)"
  by (simp add: rmSync_swallowed_def note_action_def)

lemma browser_independent_of_rm:
  "getBrowser (w\<lparr>rmSync_error := e\<rparr>) = getBrowser w"
  "newContext (w\<lparr>rmSync_error := e\<rparr>) = newContext w"
  "newPage (w\<lparr>rmSync_error := e\<rparr>) = newPage w"
  "screenshot (w\<lparr>rmSync_error := e\<rparr>) = screenshot w"
  "close_page (w\<lparr>rmSync_error := e\<rparr>) = close_page w"
  "close_context (w\<lparr>rmSync_error := e\<rparr>) = close_context w"
  "writeFileSync (w\<lparr>rmSync_error := e\<rparr>) = writeFileSync w"
  by (simp_all add: fun_eq_iff getBrowser_def newContext_def newPage_def screenshot_def
      close_page_def close_context_def writeFileSync_def split: option.splits)

lemma render_page_independent_of_rm:
  "render_page (w\<lparr>rmSync_error := e\<rparr>) = render_page w"
  by (intro ext) (simp add: render_page_def browser_independent_of_rm)

lemma renderPngBuffer_independent_of_rm:
  "renderPngBuffer (w\<lparr>rmSync_error := e\<rparr>) = renderPngBuffer w"
  by (intro ext) (simp add: renderPngBuffer_def render_page_independent_of_rm htmlPath_of_def templateDir_of_def
      TEMPLATES_ROOT_def DATA_ROOT_def split: jsval.splits)

lemma video_prepare_independent_of_rm:
  "video_prepare (w\<lparr>rmSync_error := e\<rparr>) = video_prepare w"
  by (intro ext) (simp add: video_prepare_def renderPngBuffer_independent_of_rm browser_independent_of_rm cong: if_cong)

lemma run_ffmpeg_independent_of_rm:
  "run_ffmpeg (w\<lparr>rmSync_error := e\<rparr>) = run_ffmpeg w"
  by (intro ext) (simp add: run_ffmpeg_def)

lemma video_try_independent_of_rm:
  "video_try (w\<lparr>rmSync_error := e\<rparr>) reqBody ov out s = video_try w reqBody ov out s"
  by (simp only: video_try_def video_prepare_independent_of_rm run_ffmpeg_independent_of_rm)

lemma paths_independent_of_rm:
  "tmpDir_of (w\<lparr>rmSync_error := e\<rparr>) = tmpDir_of w"
  "overlayPath_of (w\<lparr>rmSync_error := e\<rparr>) = overlayPath_of w"
  "outPath_of (w\<lparr>rmSync_error := e\<rparr>) = outPath_of w"
  "mkdtempSync (w\<lparr>rmSync_error := e\<rparr>) = mkdtempSync w"
  by (simp_all add: tmpDir_of_def overlayPath_of_def outPath_of_def mkdtempSync_def fun_eq_iff)

lemma world0_fields:
  "env_DATA_ROOT world0 = None"
  "os_tmpdir world0 = ''/tmp''"
  "mkdtemp_suffix world0 = ''Ab3xYz''"
  "mkdtemp_error world0 = None"
  "randomBytes_hex world0 = ''0123456789ab''"
  "launch_error world0 = None"
  "newContext_error world0 = None"
  "newPage_error world0 = None"
  "addInitScript_error world0 = None"
  "goto_error world0 = None"
  "addStyleTag_error world0 = None"
  "evaluate_error world0 = None"
  "waitForFunction_error world0 = None"
  "page_close_error world0 = None"
  "context_close_error world0 = None"
  "writeFile_error world0 = None"
  "rmSync_error world0 = None"
  "screenshot_result world0 = Inr ''PNG''"
  "ffmpeg_events world0 = [StderrData ''frame=48'', CloseEvent (Some 0)]"
  "ffmpeg_output world0 = Some ''MP4''"
  by (simp_all add: world0_def)

lemma sys0_fields:
  "files sys0 = [''/data/templates/card/index.html'' \<mapsto> File ''<html>'']" "browserPromise sys0 = None"
  "open_contexts sys0 = 0" "open_pages sys0 = 0" "journal sys0 = []"
  by (simp_all add: sys0_def)

lemmas path_eval = path_join_def path_normalize_def TEMPLATES_ROOT_def DATA_ROOT_def tmpDir_of_def
  templateDir_of_def htmlPath_of_def
  overlayPath_of_def outPath_of_def Let_def

lemma world0_paths:
  "tmpDir_of world0 = ''/tmp/render-Ab3xYz''"
  "overlayPath_of world0 = ''/tmp/render-Ab3xYz/overlay-0123456789ab.png''"
  "outPath_of world0 = ''/tmp/render-Ab3xYz/out-0123456789ab.mp4''"
  "htmlPath_of world0 ''card'' = ''/data/templates/card/index.html''"
  "htmlPath_of world0 ''missing'' = ''/data/templates/missing/index.html''"
  by (simp_all add: path_eval world0_fields)

lemma path_more:
  "path_join [''/data/templates'', ''../../etc/passwd''] = ''/etc/passwd''"
  "path_join [''a'', ''..'', ''..'', ''b/''] = ''../b/''"
  "path_join ['''', ''''] = ''.''"
  "path_join [''/'', ''..''] = ''/''"
  "path_join [''a//b'', ''./c''] = ''a/b/c''"
  by (simp_all add: path_eval)

lemmas io_eval = await_def resolve_def throw_def lift_def outside_def note_action_def getBrowser_def
  newContext_def newPage_def screenshot_def close_page_def close_context_def

lemma normalizeDpr_absent: "normalizeDpr JUndefined fallback = Inr fallback"
  by (simp add: normalizeDpr_def to_number_def)

text \<open>
  Claim C1 at a page that never signals readiness. The template \<^verbatim>\<open>card\<close> exists, the context
  and the page are created, and \<^verbatim>\<open>waitForFunction\<close> rejects after its 20000 ms.
  \<^verbatim>\<open>renderPngBuffer\<close> then rejects with that error; the context and the page stay open, and
  the journal ends at the wait: neither \<^verbatim>\<open>page.close\<close> nor \<^verbatim>\<open>context.close\<close> was called.
\<close>

theorem renderPngBuffer_leaks_when_not_ready:
  "(case renderPngBuffer (world0\<lparr>waitForFunction_error := Some not_ready\<rparr>) (JStr ''card'')
           (JNum (number_of_nat 400)) (JNum (number_of_nat 300)) (JBool True) (JObj []) (JObj []) (JObj [])
           False sys0 of
      (r, s') \<Rightarrow> r = Inl not_ready \<and> open_contexts s' = 1 \<and> open_pages s' = 1
        \<and> journal s' =
            [Launch, NewContext (JNum (number_of_nat 400)) (JNum (number_of_nat 300)) (number_of_nat 1), NewPage,
             AddInitScript (JObj []) (JObj []) (JObj []), Goto ''file:///data/templates/card/index.html'',
             EvaluateFonts, WaitForFunction 20000])"
proof -
  have t: "htmlPath_of (world0\<lparr>waitForFunction_error := Some not_ready\<rparr>) = htmlPath_of world0"
    by (simp add: fun_eq_iff htmlPath_of_def templateDir_of_def TEMPLATES_ROOT_def DATA_ROOT_def)
  show ?thesis
    unfolding renderPngBuffer_def
    by (simp add: t world0_paths Let_def render_page_def io_eval normalizeDpr_absent world0_fields sys0_fields)
qed

text \<open>On the path that returns the PNG both are closed; on every path that rejects, neither
  close is called, and a context that was created stays open.\<close>

lemma render_page_success:
  assumes "render_page w htmlPath width height transparent data assets options hideBg s = (Inr png, s')"
  shows "ClosePage \<in> set (journal s') \<and> CloseContext \<in> set (journal s')"
  using assms unfolding render_page_def
  by (auto simp: io_eval split: if_splits sum.splits option.splits prod.splits)

lemma render_page_failure:
  assumes "render_page w htmlPath width height transparent data assets options hideBg s = (Inl err, s')"
  shows "count_list (journal s') ClosePage = count_list (journal s) ClosePage
    \<and> count_list (journal s') CloseContext = count_list (journal s) CloseContext
    \<and> open_pages s \<le> open_pages s' \<and> open_contexts s \<le> open_contexts s'"
  using assms unfolding render_page_def
  by (auto simp: io_eval split: if_splits sum.splits option.splits prod.splits)

lemma render_page_failure_leaks:
  assumes "render_page w htmlPath width height transparent data assets options hideBg s = (Inl err, s')"
    and "normalizeDpr (get_prop options ''deviceScaleFactor'') (number_of_nat 1) = Inr dpr"
    and "fst (getBrowser w s) = Inr ()" and "newContext_error w = None"
  shows "open_contexts s' = open_contexts s + 1"
  using assms unfolding render_page_def
  by (auto simp: io_eval split: if_splits sum.splits option.splits prod.splits)

lemma renderPngBuffer_missing:
  assumes "t \<noteq> []" "files s (htmlPath_of w t) = None"
  shows "renderPngBuffer w (JStr t) width height transparent data assets options hideBg s =
     (Inl (template_not_found (htmlPath_of w t)), s)"
  using assms by (simp add: renderPngBuffer_def)

text \<open>
  Claim C8, as the code has it. A \<^verbatim>\<open>POST /render/png\<close> naming a template whose \<^verbatim>\<open>index.html\<close>
  does not exist is answered with status 404 and the JSON body
  \<^verbatim>\<open>{ error: "RENDER_FAILED", message: "Template not found at <path>" }\<close>; nothing of the
  browser is touched.
\<close>

theorem png_missing_template:
  assumes "req_template reqBody = JStr t" and "t \<noteq> []" and "files s (htmlPath_of w t) = None"
  shows "render_png w reqBody s =
     (json_response 404 [(''error'', ''RENDER_FAILED''), (''message'', ''Template not found at '' @ htmlPath_of w t)],
      note_action (ConsoleError (template_not_found (htmlPath_of w t))) s)"
  using assms
  by (simp add: render_png_def await_def renderPngBuffer_missing template_not_found_def)

text \<open>The request \<^verbatim>\<open>{ template: "missing" }\<close>.\<close>

theorem png_missing_template_witness:
  "render_png world0 (JObj [(''template'', JStr ''missing'')]) sys0 =
     (json_response 404
        [(''error'', ''RENDER_FAILED''), (''message'', ''Template not found at /data/templates/missing/index.html'')],
      note_action (ConsoleError (template_not_found ''/data/templates/missing/index.html'')) sys0)"
proof -
  have t: "req_template (JObj [(''template'', JStr ''missing'')]) = JStr ''missing''"
    by (simp add: req_template_def req_body_def)
  have f: "files sys0 (htmlPath_of world0 ''missing'') = None"
    by (simp add: world0_paths sys0_fields)
  from png_missing_template [OF t _ f] show ?thesis by (simp add: world0_paths)
qed

text \<open>
  Claim C8 as stated fails: the error code of the 404 for a missing template is
  \<^verbatim>\<open>RENDER_FAILED\<close>, the same code as in the 500 for a navigation that failed. The code does
  not identify the template-not-found condition; the status and the message do.
\<close>

theorem png_error_code_counterexample:
  "status (fst (render_png world0 (JObj [(''template'', JStr ''missing'')]) sys0)) = 404
   \<and> error_code (fst (render_png world0 (JObj [(''template'', JStr ''missing'')]) sys0)) = Some ''RENDER_FAILED''
   \<and> status (fst (render_png (world0\<lparr>goto_error := Some navigation_failed\<rparr>)
                     (JObj [(''template'', JStr ''card'')]) sys0)) = 500
   \<and> error_code (fst (render_png (world0\<lparr>goto_error := Some navigation_failed\<rparr>)
                         (JObj [(''template'', JStr ''card'')]) sys0)) = Some ''RENDER_FAILED''"
proof -
  have t: "req_template (JObj [(''template'', JStr ''missing'')]) = JStr ''missing''"
    "req_template (JObj [(''template'', JStr ''card'')]) = JStr ''card''"
    by (simp_all add: req_template_def req_body_def)
  have f: "files sys0 (htmlPath_of world0 ''missing'') = None"
    by (simp add: world0_paths sys0_fields)
  have a: "render_png world0 (JObj [(''template'', JStr ''missing'')]) sys0 =
     (json_response 404 [(''error'', ''RENDER_FAILED''), (''message'', ''Template not found at '' @ htmlPath_of world0 ''missing'')],
      note_action (ConsoleError (template_not_found (htmlPath_of world0 ''missing''))) sys0)"
    using t(1) f by (simp add: render_png_def await_def renderPngBuffer_missing template_not_found_def)
  have h: "htmlPath_of (world0\<lparr>goto_error := Some navigation_failed\<rparr>) = htmlPath_of world0"
    by (simp add: fun_eq_iff htmlPath_of_def templateDir_of_def TEMPLATES_ROOT_def DATA_ROOT_def)
  have o: "req_options (JObj [(''template'', JStr ''card'')]) = JObj []"
    by (simp add: req_options_def req_body_def prop_or_def)
  have nc: "code navigation_failed = None" by (simp add: navigation_failed_def Error_def)
  have b: "fst (render_png (world0\<lparr>goto_error := Some navigation_failed\<rparr>) (JObj [(''template'', JStr ''card'')]) sys0) =
      json_response 500 [(''error'', ''RENDER_FAILED''), (''message'', message navigation_failed)]"
    by (simp add: render_png_def renderPngBuffer_def render_page_def t(2) o h world0_paths io_eval
        normalizeDpr_absent world0_fields sys0_fields nc)
  show ?thesis unfolding a b by (simp add: json_response_def error_code_def)
qed

lemma normalizers_defined:
  assumes "convertible v"
  shows "\<exists>n m. to_number v = Inr n \<and> parseInt10 v = Inr m
      \<and> normalizeDpr v fallback = Inr (if isFinite n \<and> gt_zero n then n else fallback)
      \<and> normalizeInt v fallback = Inr (if isFinite m \<and> gt_zero m then m else fallback)
      \<and> normalizeFloat v fallback = Inr (if isFinite n \<and> gt_zero n then n else fallback)"
proof -
  from assms obtain s where s: "to_string v = Inr s"
    using to_string_total(1) [of v] by auto
  then obtain n where n: "to_number v = Inr n"
    by (cases v) (simp_all add: to_number_def)
  from s obtain m where m: "parseInt10 v = Inr m"
    by (simp add: parseInt10_def)
  show ?thesis
    using n m by (auto simp: normalizeDpr_def normalizeInt_def normalizeFloat_def finite_le_zero)
qed

lemma startsWith_nonempty: "startsWith b ''file://'' \<Longrightarrow> b \<noteq> []"
  by (auto simp: startsWith_def)

lemma video_prepare_missing_template:
  assumes "req_template reqBody = JStr t" "t \<noteq> []" "req_bgVideo reqBody = JStr b" "startsWith b ''file://''"
    and "files s (htmlPath_of w t) = None"
  shows "\<exists>err. video_prepare w reqBody ov out s = (Inl err, s)
     \<and> (convertible (get_prop (req_options reqBody) ''fps'')
          \<and> convertible (get_prop (req_options reqBody) ''durationSec'')
          \<and> convertible (get_prop (req_options reqBody) ''deviceScaleFactor'')
        \<longrightarrow> err = template_not_found (htmlPath_of w t))"
proof -
  let ?k = "\<lambda>key. get_prop (req_options reqBody) key"
  have tr: "truthy (req_template reqBody)" "truthy (req_bgVideo reqBody)"
    using assms(1-4) startsWith_nonempty [of b] by simp_all
  have ts: "to_string (req_bgVideo reqBody) = Inr b" using assms(3) by simp
  show ?thesis
  proof (cases "normalizeInt (?k ''fps'') (number_of_nat 30)")
    case (Inl e1)
    moreover have "\<not> convertible (?k ''fps'')"
      using Inl normalizers_defined [of "?k ''fps''" "number_of_nat 30"] by auto
    ultimately show ?thesis
      using tr ts assms(4) by (simp add: video_prepare_def await_lift)
  next
    case fps: (Inr F)
    show ?thesis
    proof (cases "normalizeFloat (?k ''durationSec'') (number_of_nat 6)")
      case (Inl e2)
      moreover have "\<not> convertible (?k ''durationSec'')"
        using Inl normalizers_defined [of "?k ''durationSec''" "number_of_nat 6"] by auto
      ultimately show ?thesis
        using tr ts assms(4) fps by (simp add: video_prepare_def await_lift)
    next
      case dur: (Inr D)
      show ?thesis
      proof (cases "normalizeDpr (?k ''deviceScaleFactor'') (number_of_nat 1)")
        case (Inl e3)
        moreover have "\<not> convertible (?k ''deviceScaleFactor'')"
          using Inl normalizers_defined [of "?k ''deviceScaleFactor''" "number_of_nat 1"] by auto
        ultimately show ?thesis
          using tr ts assms(4) fps dur by (simp add: video_prepare_def await_lift)
      next
        case dpr: (Inr R)
        show ?thesis
          using tr ts assms(1,2,4,5) fps dur dpr
          by (simp add: video_prepare_def await_def lift_def renderPngBuffer_missing)
      qed
    qed
  qed
qed

lemma video_try_thrown:
  "video_prepare w reqBody ov out s = (Inl err, s1) \<Longrightarrow> video_try w reqBody ov out s = Some (Inl err, s1)"
  by (simp add: video_try_def)

lemma video_try_early:
  "video_prepare w reqBody ov out s = (Inr (Inl resp), s1) \<Longrightarrow> video_try w reqBody ov out s = Some (Inr resp, s1)"
  by (simp add: video_try_def)

lemma mkdtempSync_files: "files (mkdtempSync w s) p = (if p = tmpDir_of w then Some Dir else files s p)"
  by (simp add: mkdtempSync_def note_action_def)

text \<open>
  Claim C9. A \<^verbatim>\<open>POST /render/video\<close> with a \<^verbatim>\<open>file://\<close> background video and a template whose
  \<^verbatim>\<open>index.html\<close> does not exist is answered with status 500 and the error code
  \<^verbatim>\<open>RENDER_VIDEO_FAILED\<close>: the \<^verbatim>\<open>catch\<close> of the video handler does not look at the code of what
  was thrown. When the options convert, what was thrown is the \<^verbatim>\<open>TEMPLATE_NOT_FOUND\<close> error of
  \<^verbatim>\<open>renderPngBuffer\<close>, to which the PNG handler answers 404 for the same request.
\<close>

theorem video_missing_template:
  assumes "mkdtemp_error w = None"
    and "req_template reqBody = JStr t" and "t \<noteq> []"
    and "req_bgVideo reqBody = JStr b" and "startsWith b ''file://''"
    and "files s (htmlPath_of w t) = None" and "htmlPath_of w t \<noteq> tmpDir_of w"
  shows "\<exists>err s'. render_video w reqBody s =
        Some (Inr (json_response 500 [(''error'', ''RENDER_VIDEO_FAILED''), (''message'', message err)]), s')
     \<and> (convertible (get_prop (req_options reqBody) ''fps'')
          \<and> convertible (get_prop (req_options reqBody) ''durationSec'')
          \<and> convertible (get_prop (req_options reqBody) ''deviceScaleFactor'')
        \<longrightarrow> err = template_not_found (htmlPath_of w t))
     \<and> status (fst (render_png w reqBody s)) = 404"
proof -
  have f: "files (mkdtempSync w s) (htmlPath_of w t) = None"
    using assms(6,7) by (simp add: mkdtempSync_files)
  from video_prepare_missing_template [OF assms(2-5) f, of "overlayPath_of w" "outPath_of w"]
  obtain err where e: "video_prepare w reqBody (overlayPath_of w) (outPath_of w) (mkdtempSync w s) = (Inl err, mkdtempSync w s)"
    and c: "convertible (get_prop (req_options reqBody) ''fps'')
          \<and> convertible (get_prop (req_options reqBody) ''durationSec'')
          \<and> convertible (get_prop (req_options reqBody) ''deviceScaleFactor'')
        \<longrightarrow> err = template_not_found (htmlPath_of w t)"
    by blast
  have p: "status (fst (render_png w reqBody s)) = 404"
    using assms(2,3,6)
    by (simp add: render_png_def await_def renderPngBuffer_missing template_not_found_def json_response_def)
  from render_video_result [OF assms(1) video_try_thrown [OF e]] c p
  show ?thesis by auto
qed

lemma digit_chars:
  "digit_char 0 = CHR ''0''" "digit_char 1 = CHR ''1''" "digit_char 2 = CHR ''2''" "digit_char 3 = CHR ''3''"
  "digit_char 4 = CHR ''4''" "digit_char 5 = CHR ''5''" "digit_char 6 = CHR ''6''" "digit_char 7 = CHR ''7''"
  "digit_char 8 = CHR ''8''" "digit_char 9 = CHR ''9''" "digit_char (Suc 0) = CHR ''1''"
  by code_simp+

lemma video_prepare_bad_background:
  assumes "\<not> truthy (req_bgVideo reqBody)
     \<or> (\<exists>b. to_string (req_bgVideo reqBody) = Inr b \<and> \<not> startsWith b ''file://'')"
  shows "\<exists>resp. video_prepare w reqBody ov out s = (Inr (Inl resp), s) \<and> status resp = 400"
proof (cases "truthy (req_template reqBody)")
  case False
  then show ?thesis by (simp add: video_prepare_def resolve_def json_response_def)
next
  case True
  show ?thesis
  proof (cases "truthy (req_bgVideo reqBody)")
    case False
    with True show ?thesis by (simp add: video_prepare_def resolve_def json_response_def)
  next
    case bg: True
    with assms obtain b where "to_string (req_bgVideo reqBody) = Inr b" "\<not> startsWith b ''file://''" by blast
    with True bg show ?thesis by (simp add: video_prepare_def await_lift resolve_def json_response_def)
  qed
qed

text \<open>
  Claim C2, as the code has it. When the temporary directory can be created, a
  \<^verbatim>\<open>POST /render/video\<close> whose \<^verbatim>\<open>assets.backgroundVideo\<close> is absent (or falsy), or whose string does
  not start with \<^verbatim>\<open>file://\<close>, is answered with status 400. The directory was created before
  the validation; the handler does nothing else but remove it again in its \<^verbatim>\<open>finally\<close>, and it
  is gone when that removal does not fail.
\<close>

theorem video_bad_background:
  assumes "mkdtemp_error w = None"
    and "\<not> truthy (req_bgVideo reqBody)
     \<or> (\<exists>b. to_string (req_bgVideo reqBody) = Inr b \<and> \<not> startsWith b ''file://'')"
  shows "\<exists>resp s'. render_video w reqBody s = Some (Inr resp, s') \<and> status resp = 400
     \<and> s' = rmSync_swallowed w (tmpDir_of w) (mkdtempSync w s)
     \<and> journal s' = journal s @ [Mkdtemp (tmpDir_of w), RmSync (tmpDir_of w)]
     \<and> (rmSync_error w = None \<longrightarrow> files s' (tmpDir_of w) = None)"
proof -
  from video_prepare_bad_background [OF assms(2), of w "overlayPath_of w" "outPath_of w" "mkdtempSync w s"]
  obtain resp where p: "video_prepare w reqBody (overlayPath_of w) (outPath_of w) (mkdtempSync w s) =
      (Inr (Inl resp), mkdtempSync w s)" and st: "status resp = 400" by blast
  have j: "journal (rmSync_swallowed w (tmpDir_of w) (mkdtempSync w s)) =
      journal s @ [Mkdtemp (tmpDir_of w), RmSync (tmpDir_of w)]"
    by (simp add: rmSync_journal mkdtempSync_def note_action_def)
  from render_video_result [OF assms(1) video_try_early [OF p]] st j
  show ?thesis by (simp add: rmSync_removes)
qed

text \<open>
  Claim C7. Whenever the handler of \<^verbatim>\<open>POST /render/video\<close> has created its temporary directory,
  it answers, and the last thing it does, on every path, is the recursive forced removal of
  that directory: when the removal succeeds neither the directory nor anything under it
  exists afterwards, and whether the removal fails or not the response is the same.
\<close>

theorem tmpdir_removed:
  assumes "mkdtemp_error w = None"
  shows "\<exists>resp s'. render_video w reqBody s = Some (Inr resp, s')
     \<and> last (journal s') = RmSync (tmpDir_of w)
     \<and> (rmSync_error w = None \<longrightarrow>
          (\<forall>p. p = tmpDir_of w \<or> startsWith p (tmpDir_of w @ ''/'') \<longrightarrow> files s' p = None))
     \<and> (\<forall>e. \<exists>s''. render_video (w\<lparr>rmSync_error := e\<rparr>) reqBody s = Some (Inr resp, s''))"
proof -
  obtain r s1 where t: "video_try w reqBody (overlayPath_of w) (outPath_of w) (mkdtempSync w s) = Some (r, s1)"
    using video_try_total by blast
  have t': "video_try (w\<lparr>rmSync_error := e\<rparr>) reqBody (overlayPath_of (w\<lparr>rmSync_error := e\<rparr>))
      (outPath_of (w\<lparr>rmSync_error := e\<rparr>)) (mkdtempSync (w\<lparr>rmSync_error := e\<rparr>) s) = Some (r, s1)" for e
    using t by (simp only: video_try_independent_of_rm paths_independent_of_rm)
  have m: "mkdtemp_error (w\<lparr>rmSync_error := e\<rparr>) = None" for e using assms by simp
  note a = render_video_result [OF assms t]
  note b = render_video_result [OF m t']
  show ?thesis
    unfolding a using b by (auto simp: rmSync_journal rmSync_removes)
qed

lemma video_try_200:
  assumes "video_try w reqBody ov out s = Some (Inr resp, s1)" and "status resp = 200"
  shows "\<exists>a s0. video_prepare w reqBody ov out s = (Inr (Inr a), s0) \<and> Spawn ''ffmpeg'' a 180000 \<in> set (journal s1)"
proof -
  obtain r0 s0 where p: "video_prepare w reqBody ov out s = (r0, s0)" by (cases "video_prepare w reqBody ov out s")
  show ?thesis
  proof (cases r0)
    case (Inl err)
    with p assms show ?thesis by (simp add: video_try_def)
  next
    case (Inr x)
    show ?thesis
    proof (cases x)
      case (Inl early)
      with p Inr assms video_prepare_early [of w reqBody ov out s early s0] show ?thesis
        by (simp add: video_try_def)
    next
      case args: (Inr a)
      obtain st s2 where rf: "run_ffmpeg w a out s0 = (st, s2)" by (cases "run_ffmpeg w a out s0")
      then have j: "Spawn ''ffmpeg'' a 180000 \<in> set (journal s2)"
        by (auto simp: run_ffmpeg_def Let_def split: option.splits)
      have "video_respond out s2 = (Inr resp, s1)"
        using assms(1) p Inr args rf by (auto simp: video_try_def split: option.splits sum.splits)
      then have "set (journal s2) \<subseteq> set (journal s1)"
        by (auto simp: video_respond_def await_def readFileSync_def note_action_def resolve_def
            split: option.splits fnode.splits)
      with j p Inr args show ?thesis by auto
    qed
  qed
qed

text \<open>
  Claim C6. Every request to \<^verbatim>\<open>/render/video\<close> answered with status 200 has spawned
  \<^verbatim>\<open>ffmpeg\<close>, with the timeout 180000, on exactly these arguments: \<^verbatim>\<open>-y\<close>, the looping flags
  \<^verbatim>\<open>-stream_loop -1\<close> before the background input, the overlay input, \<^verbatim>\<open>-t\<close> with the string of
  the normalized duration, \<^verbatim>\<open>-r\<close> with the string of the normalized frame rate, the filter graph
  built from the strings \<open>W\<close> and \<open>H\<close> of width and height, \<^verbatim>\<open>-map [v]\<close>, then \<^verbatim>\<open>-map 0:a?\<close> when
  \<^verbatim>\<open>options.includeAudio === true\<close> and \<^verbatim>\<open>-an\<close> otherwise, \<^verbatim>\<open>-c:v libx264\<close>, \<^verbatim>\<open>-pix_fmt yuv420p\<close>,
  \<^verbatim>\<open>-movflags +faststart\<close> and the output path.
\<close>

theorem ffmpeg_invocation:
  assumes "render_video w reqBody s = Some (Inr resp, s')" and "status resp = 200"
  shows "\<exists>W H F D bgPath.
      to_string (req_width reqBody) = Inr W \<and> to_string (req_height reqBody) = Inr H
    \<and> normalizeInt (get_prop (req_options reqBody) ''fps'') (number_of_nat 30) = Inr F
    \<and> normalizeFloat (get_prop (req_options reqBody) ''durationSec'') (number_of_nat 6) = Inr D
    \<and> replace_file_scheme (req_bgVideo reqBody) = Inr bgPath
    \<and> Spawn ''ffmpeg''
         ([''-y'', ''-stream_loop'', ''-1'', ''-i'', bgPath, ''-i'', overlayPath_of w,
           ''-t'', num_to_string D, ''-r'', num_to_string F,
           ''-filter_complex'',
           ''[0:v]scale='' @ W @ '':'' @ H @ '':force_original_aspect_ratio=increase,crop='' @ W @ '':'' @ H @
             '',setsar=1[bg];[bg][1:v]overlay=0:0:format=auto[v]'',
           ''-map'', ''[v]''] @
          (if get_prop (req_options reqBody) ''includeAudio'' = JBool True then [''-map'', ''0:a?''] else [''-an'']) @
          [''-c:v'', ''libx264'', ''-pix_fmt'', ''yuv420p'', ''-movflags'', ''+faststart'', outPath_of w])
         180000 \<in> set (journal s')"
proof -
  from assms(1) have m: "mkdtemp_error w = None"
    by (auto simp: render_video_def split: option.splits)
  obtain r s1 where t: "video_try w reqBody (overlayPath_of w) (outPath_of w) (mkdtempSync w s) = Some (r, s1)"
    using video_try_total by blast
  from render_video_result [OF m t] assms
  have r: "r = Inr resp" and s': "s' = rmSync_swallowed w (tmpDir_of w) s1"
    by (cases r; auto simp: json_response_def)+
  from video_try_200 [OF t [unfolded r] assms(2)]
  obtain a s0 where p: "video_prepare w reqBody (overlayPath_of w) (outPath_of w) (mkdtempSync w s) = (Inr (Inr a), s0)"
    and j: "Spawn ''ffmpeg'' a 180000 \<in> set (journal s1)" by blast
  from j have j': "Spawn ''ffmpeg'' a 180000 \<in> set (journal s')" by (simp add: s' rmSync_journal)
  from video_prepare_args [OF p] j' show ?thesis by (auto simp: ffmpegArgs_def)
qed

text \<open>
  Claim C4. When the deadline comes before the process has closed or failed, the timer's
  callback sends \<^verbatim>\<open>SIGKILL\<close> and the promise rejects with \<^verbatim>\<open><cmd> timed out after <timeoutMs>ms\<close>.
  The composition of \<^verbatim>\<open>/render/video\<close> runs \<^verbatim>\<open>ffmpeg\<close> under the bound 180000: when the tool does
  not exit in time the \<^verbatim>\<open>try\<close> block throws \<^verbatim>\<open>ffmpeg timed out after 180000ms\<close>, having spawned the
  tool with that bound and killed it.
\<close>

theorem run_timeout:
  assumes "list_all is_data evs"
  shows "settled (run cmd args timeoutMs evs) =
       Some (Inl (Error (cmd @ '' timed out after '' @ dec_digits timeoutMs @ ''ms'')))
     \<and> signals (run cmd args timeoutMs evs) = [''SIGKILL'']
     \<and> (\<forall>w reqBody ov out s a s1.
           ffmpeg_events w = evs \<and> video_prepare w reqBody ov out s = (Inr (Inr a), s1) \<longrightarrow>
           (\<exists>s2. video_try w reqBody ov out s = Some (Inl (Error ''ffmpeg timed out after 180000ms''), s2)
               \<and> journal s2 = journal s1 @ [Spawn ''ffmpeg'' a 180000, Kill ''SIGKILL'']))"
proof -
  have d: "dec_digits 180000 = ''180000''" by (simp add: dec_digits.simps digit_chars)
  have "\<exists>s2. video_try w reqBody ov out s = Some (Inl (Error ''ffmpeg timed out after 180000ms''), s2)
         \<and> journal s2 = journal s1 @ [Spawn ''ffmpeg'' a 180000, Kill ''SIGKILL'']"
    if "ffmpeg_events w = evs" "video_prepare w reqBody ov out s = (Inr (Inr a), s1)" for w reqBody ov out s a s1
    using that run_timeout_state [OF assms, of "''ffmpeg''" a 180000]
    by (auto simp: video_try_def run_ffmpeg_def Let_def d split: option.splits)
  then show ?thesis
    using run_timeout_state [OF assms, of cmd args timeoutMs] by auto
qed

end
